theory Spec2Isabelle
  imports Main
begin

section \<open>JavaScript values and effects\<close>

text \<open>
  A value that a \<^verbatim>\<open>throw\<close> (or a rejected promise) carries: an \<^verbatim>\<open>Error\<close> object with its
  message, or any other value, kept as its \<^verbatim>\<open>String(...)\<close> rendering.
\<close>

datatype thrown = Error (message: string) | NonError (rendering: string)

text \<open>\<^verbatim>\<open>error instanceof Error ? error.message : String(error)\<close>\<close>

definition errorMsg :: "thrown \<Rightarrow> string" where
  "errorMsg error = (case error of Error m \<Rightarrow> m | NonError s \<Rightarrow> s)"

text \<open>\<^verbatim>\<open>error instanceof Error ? error.message : 'Unknown error'\<close>\<close>

definition errorMsg_or_unknown :: "thrown \<Rightarrow> string" where
  "errorMsg_or_unknown error = (case error of Error m \<Rightarrow> m | NonError s \<Rightarrow> ''Unknown error'')"

text \<open>\<^verbatim>\<open>error.message\<close> on a caught value of type \<^verbatim>\<open>any\<close>.\<close>

definition error_message_any :: "thrown \<Rightarrow> string" where
  "error_message_any error = (case error of Error m \<Rightarrow> m | NonError s \<Rightarrow> ''undefined'')"

text \<open>
  A string that may be \<^verbatim>\<open>undefined\<close>, \<^verbatim>\<open>null\<close> or \<^verbatim>\<open>false\<close> is a \<open>string option\<close>.
  It is truthy when it is a non-empty string.
\<close>

definition truthy :: "string option \<Rightarrow> bool" where
  "truthy v = (case v of None \<Rightarrow> False | Some s \<Rightarrow> s \<noteq> [])"

text \<open>\<^verbatim>\<open>a || b\<close> with a string default, and with a default that may be absent itself.\<close>

definition or_else :: "string option \<Rightarrow> string \<Rightarrow> string" where
  "or_else v d = (case v of None \<Rightarrow> d | Some s \<Rightarrow> if s \<noteq> [] then s else d)"

definition or_opt :: "string option \<Rightarrow> string option \<Rightarrow> string option" where
  "or_opt v d = (if truthy v then v else d)"

text \<open>\<^verbatim>\<open>Array.prototype.join\<close> on strings.\<close>

fun join :: "string \<Rightarrow> string list \<Rightarrow> string" where
  "join sep [] = []"
| "join sep [x] = x"
| "join sep (x # y # ys) = x @ sep @ join sep (y # ys)"

text \<open>Decimal rendering of a non-negative integer, as a template literal prints a UID.\<close>

definition digit :: "nat \<Rightarrow> char" where
  "digit d = char_of (48 + d)"

fun string_of_nat :: "nat \<Rightarrow> string" where
  "string_of_nat n = (if n < 10 then [digit n] else string_of_nat (n div 10) @ [digit (n mod 10)])"

declare string_of_nat.simps [simp del]

definition dquote :: char where "dquote = CHR 0x22"
definition squote :: char where "squote = CHR 0x27"
definition backslash :: char where "backslash = CHR 0x5C"
definition newline :: char where "newline = CHR 0x0A"

text \<open>
  The result of \<^verbatim>\<open>JSON.parse\<close>: a number is kept as its rendering, an object as the list
  of its own properties, one entry for each key.
\<close>

datatype json =
    JNull
  | JBool bool
  | JNumber string
  | JString string
  | JArray "json list"
  | JObject "(string \<times> json) list"

text \<open>\<^verbatim>\<open>String(v)\<close> for a parsed value or \<^verbatim>\<open>undefined\<close>, as a template literal prints it.\<close>

fun js_String :: "json \<Rightarrow> string" where
  "js_String JNull = ''null''"
| "js_String (JBool b) = (if b then ''true'' else ''false'')"
| "js_String (JNumber s) = s"
| "js_String (JString s) = s"
| "js_String (JArray xs) = join '','' (map (\<lambda>x. if x = JNull then [] else js_String x) xs)"
| "js_String (JObject kvs) = ''[object Object]''"

definition js_String_opt :: "json option \<Rightarrow> string" where
  "js_String_opt v = (case v of None \<Rightarrow> ''undefined'' | Some x \<Rightarrow> js_String x)"

section \<open>Data model\<close>

type_synonym Date = int
type_synonym Buffer = string

text \<open>\<^verbatim>\<open>interfaces/Email.ts\<close>: the category is a string at run time.\<close>

type_synonym AICategory = string

record EmailDocument =
  id_doc :: string
  account_id :: string
  folder :: string
  message_id :: string
  subject :: string
  body_text :: string
  body_html :: string
  from_doc :: string
  to_doc :: string
  date :: Date
  ai_category :: AICategory
  read :: bool
  flags :: "string list"

text \<open>What \<^verbatim>\<open>mailparser\<close> returns: every field the pipeline reads may be absent.\<close>

record EmailAddress =
  address :: "string option"

record AddressObject =
  addr_value :: "EmailAddress list option"

datatype to_field = OneAddressObject AddressObject | AddressObjects "AddressObject list"

record ParsedMail =
  parsed_subject :: "string option"
  parsed_text :: "string option"
  parsed_html :: "string option"
  parsed_textAsHtml :: "string option"
  parsed_messageId :: "string option"
  parsed_from :: "AddressObject option"
  parsed_to :: "to_field option"
  parsed_date :: "Date option"

text \<open>What \<^verbatim>\<open>imapflow\<close>'s \<^verbatim>\<open>fetchOne\<close> returns; \<^verbatim>\<open>flags\<close> is a set, kept in iteration order.\<close>

record FetchMessageObject =
  msg_uid :: nat
  msg_source :: "Buffer option"
  msg_flags :: "string list option"

record AccountConfig =
  id_cfg :: string
  host :: string
  port :: nat
  secure :: bool
  auth_user :: "string option"
  auth_pass :: "string option"

datatype search_criteria = Since int | Unseen

datatype imap_call =
    Connect string
  | GetMailboxLock string string
  | Release string string
  | Search string search_criteria
  | FetchOne string nat

datatype console_line = Log string | Warn string | ErrorLine string

datatype payload =
    SlackBlocks string string string
  | InterestedEvent string string string string Date

text \<open>
  Everything the pipeline changes: the Elasticsearch index \<^verbatim>\<open>emails\<close> and the requests
  sent to it, the requests sent to OpenAI, the calls of the automation service and its
  HTTP posts, the console, the IMAP commands, the \<^verbatim>\<open>clients\<close> map, the registered
  event handlers, and how many times \<^verbatim>\<open>new Date()\<close> has read the clock.
\<close>

record world =
  es_index :: "string \<rightharpoonup> EmailDocument"
  es_requests :: "EmailDocument list"
  openai_requests :: "(string \<times> string) list"
  automation_calls :: "EmailDocument list"
  http_posts :: "(string \<times> payload) list"
  console :: "console_line list"
  imap_calls :: "imap_call list"
  clients :: "string \<rightharpoonup> AccountConfig"
  exists_handlers :: "string list"
  error_handlers :: "string list"
  clock_reads :: nat

text \<open>
  The external collaborators and the process environment. Each service answers as a
  function of its arguments; the clock answers as a function of how often it was read.
\<close>

record env =
  OPENAI_API_KEY :: "string option"
  SLACK_WEBHOOK_URL :: "string option"
  EXTERNAL_WEBHOOK_URL :: "string option"
  IMAP_ACCOUNT_1_USER :: "string option"
  IMAP_ACCOUNT_1_PASS :: "string option"
  IMAP_ACCOUNT_2_HOST :: "string option"
  IMAP_ACCOUNT_2_USER :: "string option"
  IMAP_ACCOUNT_2_PASS :: "string option"
  clock :: "nat \<Rightarrow> Date"
  LocalTZA :: "int \<Rightarrow> bool \<Rightarrow> int"
  simpleParser :: "Buffer \<Rightarrow> thrown + ParsedMail"
  chat_completions_create :: "string \<Rightarrow> string \<Rightarrow> thrown + string option list"
  JSON_parse :: "string \<Rightarrow> thrown + json"
  client_index :: "EmailDocument \<Rightarrow> thrown option"
  axios_post :: "string \<Rightarrow> payload \<Rightarrow> thrown option"
  client_connect :: "string \<Rightarrow> thrown option"
  client_getMailboxLock :: "string \<Rightarrow> string \<Rightarrow> thrown option"
  client_search :: "string \<Rightarrow> search_criteria \<Rightarrow> thrown + nat list option"
  client_fetchOne :: "string \<Rightarrow> nat \<Rightarrow> thrown + FetchMessageObject option"

text \<open>An async function: it changes the world and either throws or returns.\<close>

type_synonym 'a prog = "world \<Rightarrow> (thrown + 'a) \<times> world"

definition returnE :: "'a \<Rightarrow> 'a prog" where
  "returnE a = (\<lambda>w. (Inr a, w))"

definition bindE :: "'a prog \<Rightarrow> ('a \<Rightarrow> 'b prog) \<Rightarrow> 'b prog" where
  "bindE m f = (\<lambda>w. case m w of (Inl e, w') \<Rightarrow> (Inl e, w') | (Inr a, w') \<Rightarrow> f a w')"

definition try_catch :: "'a prog \<Rightarrow> (thrown \<Rightarrow> 'a prog) \<Rightarrow> 'a prog" where
  "try_catch m h = (\<lambda>w. case m w of (Inl e, w') \<Rightarrow> h e w' | (Inr a, w') \<Rightarrow> (Inr a, w'))"

definition try_finally :: "'a prog \<Rightarrow> (world \<Rightarrow> world) \<Rightarrow> 'a prog" where
  "try_finally m fin = (\<lambda>w. case m w of (r, w') \<Rightarrow> (r, fin w'))"

definition liftE :: "thrown + 'a \<Rightarrow> 'a prog" where
  "liftE r = (\<lambda>w. (r, w))"

definition console_log :: "string \<Rightarrow> unit prog" where
  "console_log s = (\<lambda>w. (Inr (), w\<lparr>console := console w @ [Log s]\<rparr>))"

definition console_warn :: "string \<Rightarrow> unit prog" where
  "console_warn s = (\<lambda>w. (Inr (), w\<lparr>console := console w @ [Warn s]\<rparr>))"

definition console_error :: "string \<Rightarrow> unit prog" where
  "console_error s = (\<lambda>w. (Inr (), w\<lparr>console := console w @ [ErrorLine s]\<rparr>))"

section \<open>AIService\<close>

definition VALID_CATEGORIES :: "AICategory list" where
  "VALID_CATEGORIES =
     [''Interested'', ''Meeting Booked'', ''Not Interested'', ''Spam'', ''Out of Office'',
      ''Uncategorized'']"

definition systemPrompt :: string where
  "systemPrompt =
     ''You are an expert email analyst for a B2B sales outreach platform. Your task is to analyze the provided email subject and body and classify the email into one of the following exact categories: ''
     @ join '', '' VALID_CATEGORIES
     @ ''. Your response MUST be a single JSON object containing only the ''
     @ [squote] @ ''category'' @ [squote] @ '' key.''"

text \<open>\<^verbatim>\<open>body.substring(0, 2000)\<close> keeps at most the first 2000 units of the body.\<close>

definition userPrompt :: "string \<Rightarrow> string \<Rightarrow> string" where
  "userPrompt subj body =
     ''SUBJECT: '' @ [dquote] @ subj @ [dquote, newline] @ ''BODY: '' @ [dquote]
     @ take 2000 body @ ''...'' @ [dquote]"

text \<open>\<^verbatim>\<open>this.openai.chat.completions.create(...)\<close>: the request is recorded, then answered.\<close>

definition openai_create :: "env \<Rightarrow> string \<Rightarrow> string \<Rightarrow> string option list prog" where
  "openai_create env sys usr =
     (\<lambda>w. (chat_completions_create env sys usr,
            w\<lparr>openai_requests := openai_requests w @ [(sys, usr)]\<rparr>))"

text \<open>
  \<^verbatim>\<open>response.choices[0].message.content\<close>: reading \<^verbatim>\<open>message\<close> of the missing first
  choice throws a TypeError.
\<close>

definition first_content :: "string option list \<Rightarrow> thrown + string option" where
  "first_content choices =
     (case choices of
        [] \<Rightarrow> Inl (Error ''Cannot read properties of undefined (reading message)'')
      | c # _ \<Rightarrow> Inr c)"

text \<open>
  \<^verbatim>\<open>result.category\<close>: a TypeError on \<^verbatim>\<open>null\<close>, the property of an object, and
  \<^verbatim>\<open>undefined\<close> on every other parsed value.
\<close>

definition get_category :: "json \<Rightarrow> thrown + json option" where
  "get_category result =
     (case result of
        JNull \<Rightarrow> Inl (Error ''Cannot read properties of null (reading category)'')
      | JObject kvs \<Rightarrow> Inr (map_of kvs ''category'')
      | _ \<Rightarrow> Inr None)"

text \<open>
  \<^verbatim>\<open>category && VALID_CATEGORIES.includes(category)\<close>: \<^verbatim>\<open>includes\<close> compares with
  SameValueZero, so only a string equal to one of the labels is included, and every
  label is a non-empty (truthy) string.
\<close>

definition valid_category :: "json option \<Rightarrow> bool" where
  "valid_category category =
     (case category of Some (JString s) \<Rightarrow> s \<noteq> [] \<and> s \<in> set VALID_CATEGORIES | _ \<Rightarrow> False)"

definition empty_response :: "AICategory prog" where
  "empty_response =
     bindE (console_warn ''[AIService] Received empty response from OpenAI.'')
       (\<lambda>_. returnE ''Uncategorized'')"

definition invalid_category :: "json option \<Rightarrow> AICategory prog" where
  "invalid_category category =
     bindE (console_warn (''[AIService] Invalid category returned: ''
              @ js_String_opt category @ ''. Falling back.''))
       (\<lambda>_. returnE ''Uncategorized'')"

text \<open>The validation of the parsed answer; a valid category is a string and is returned.\<close>

definition validate_category :: "json option \<Rightarrow> AICategory prog" where
  "validate_category category =
     (if valid_category category
      then (case category of Some (JString s) \<Rightarrow> returnE s | _ \<Rightarrow> invalid_category category)
      else invalid_category category)"

definition classify_rawJson :: "env \<Rightarrow> string option \<Rightarrow> AICategory prog" where
  "classify_rawJson env rawJson =
     (if \<not> truthy rawJson then empty_response
      else
        bindE (liftE (JSON_parse env (case rawJson of Some raw \<Rightarrow> raw | None \<Rightarrow> []))) (\<lambda>result.
        bindE (liftE (get_category result)) (\<lambda>category.
          validate_category category)))"

definition categorizeEmail :: "env \<Rightarrow> string \<Rightarrow> string \<Rightarrow> AICategory prog" where
  "categorizeEmail env subj body =
     (if \<not> truthy (OPENAI_API_KEY env) then returnE ''Uncategorized''
      else
        try_catch
          (bindE (openai_create env systemPrompt (userPrompt subj body)) (\<lambda>choices.
           bindE (liftE (first_content choices)) (\<lambda>rawJson.
             classify_rawJson env rawJson)))
          (\<lambda>error.
             bindE (console_error (''[AIService] Error during classification API call: ''
                      @ errorMsg_or_unknown error))
               (\<lambda>_. returnE ''Uncategorized'')))"

section \<open>ElasticsearchService\<close>

text \<open>
  \<^verbatim>\<open>this.client.index({ index: INDEX_NAME, id: email.id, document: email })\<close>: the request
  is recorded; when Elasticsearch accepts it, the document replaces whatever the index
  held under that id.
\<close>

definition es_client_index :: "env \<Rightarrow> EmailDocument \<Rightarrow> unit prog" where
  "es_client_index env email =
     (\<lambda>w. let w1 = w\<lparr>es_requests := es_requests w @ [email]\<rparr> in
          case client_index env email of
            Some error \<Rightarrow> (Inl error, w1)
          | None \<Rightarrow> (Inr (), w1\<lparr>es_index := (es_index w1)(id_doc email \<mapsto> email)\<rparr>))"

definition indexDocument :: "env \<Rightarrow> EmailDocument \<Rightarrow> unit prog" where
  "indexDocument env email =
     try_catch (es_client_index env email)
       (\<lambda>error. console_error (''[Elasticsearch] Failed to index email ID '' @ id_doc email
                   @ '': '' @ errorMsg error))"

section \<open>AutomationService\<close>

definition http_post :: "env \<Rightarrow> string \<Rightarrow> payload \<Rightarrow> unit prog" where
  "http_post env url body =
     (\<lambda>w. (case axios_post env url body of Some error \<Rightarrow> Inl error | None \<Rightarrow> Inr (),
            w\<lparr>http_posts := http_posts w @ [(url, body)]\<rparr>))"

definition sendSlackNotification :: "env \<Rightarrow> string \<Rightarrow> EmailDocument \<Rightarrow> unit prog" where
  "sendSlackNotification env url email =
     try_catch
       (bindE (http_post env url (SlackBlocks (account_id email) (from_doc email) (subject email)))
          (\<lambda>_. console_log ''[Automation] Slack notification sent successfully.''))
       (\<lambda>error. console_error (''[Elasticsearch] Failed to index email ID '' @ id_doc email
                   @ '': '' @ errorMsg error))"

definition triggerExternalWebhook :: "env \<Rightarrow> string \<Rightarrow> EmailDocument \<Rightarrow> unit prog" where
  "triggerExternalWebhook env url email =
     try_catch
       (bindE (http_post env url
                 (InterestedEvent (id_doc email) (account_id email) (subject email)
                    (from_doc email) (date email)))
          (\<lambda>_. console_log (''[Automation] Webhook triggered to '' @ url)))
       (\<lambda>error. console_error (''[Elasticsearch] Failed to index email ID '' @ id_doc email
                   @ '': '' @ errorMsg error))"

definition enter_automation :: "EmailDocument \<Rightarrow> unit prog" where
  "enter_automation email =
     (\<lambda>w. (Inr (), w\<lparr>automation_calls := automation_calls w @ [email]\<rparr>))"

definition triggerInterestedAutomation :: "env \<Rightarrow> EmailDocument \<Rightarrow> unit prog" where
  "triggerInterestedAutomation env email =
     bindE (enter_automation email) (\<lambda>_.
     bindE (console_log (''[Automation] Triggering automation for '' @ id_doc email
              @ '' (Category: '' @ ai_category email @ '')'')) (\<lambda>_.
     bindE (case SLACK_WEBHOOK_URL env of
              Some url \<Rightarrow>
                if url \<noteq> [] then sendSlackNotification env url email
                else console_warn ''[Automation] SLACK_WEBHOOK_URL not set. Skipping Slack notification.''
            | None \<Rightarrow>
                console_warn ''[Automation] SLACK_WEBHOOK_URL not set. Skipping Slack notification.'') (\<lambda>_.
     (case EXTERNAL_WEBHOOK_URL env of
        Some url \<Rightarrow>
          if url \<noteq> [] then triggerExternalWebhook env url email
          else console_warn ''[Automation] EXTERNAL_WEBHOOK_URL not set. Skipping external webhook.''
      | None \<Rightarrow>
          console_warn ''[Automation] EXTERNAL_WEBHOOK_URL not set. Skipping external webhook.''))))"

section \<open>ImapService\<close>

definition imap_tag :: "string \<Rightarrow> string" where
  "imap_tag accountId = ''[IMAP:'' @ accountId @ '']''"

definition idle_tag :: "string \<Rightarrow> string" where
  "idle_tag accountId = ''[IMAP:'' @ accountId @ '' - IDLE]''"

text \<open>\<^verbatim>\<open>new Date()\<close> reads the clock.\<close>

definition new_Date :: "env \<Rightarrow> Date prog" where
  "new_Date env = (\<lambda>w. (Inr (clock env (clock_reads w)), w\<lparr>clock_reads := Suc (clock_reads w)\<rparr>))"

text \<open>\<^verbatim>\<open>parsed.date || new Date()\<close>: a Date object is always truthy.\<close>

definition date_or_now :: "env \<Rightarrow> Date option \<Rightarrow> Date prog" where
  "date_or_now env d = (case d of Some t \<Rightarrow> returnE t | None \<Rightarrow> new_Date env)"

text \<open>The recipient list: the addresses of every recipient object, the falsy ones dropped.\<close>

definition toList :: "ParsedMail \<Rightarrow> string" where
  "toList parsed =
     (case parsed_to parsed of
        None \<Rightarrow> ''unknown@example.com''
      | Some t \<Rightarrow>
          (let recipients = (case t of AddressObjects rs \<Rightarrow> rs | OneAddressObject r \<Rightarrow> [r]);
               addresses = concat (map (\<lambda>recipient.
                              case addr_value recipient of
                                Some as \<Rightarrow> map address as
                              | None \<Rightarrow> []) recipients)
           in or_else (Some (join '', '' (List.map_filter (\<lambda>a. if truthy a then a else None) addresses)))
                ''unknown@example.com''))"

text \<open>\<^verbatim>\<open>parsed.from?.value?.[0]?.address\<close>\<close>

definition from_address :: "ParsedMail \<Rightarrow> string option" where
  "from_address parsed =
     (case parsed_from parsed of
        None \<Rightarrow> None
      | Some f \<Rightarrow>
          (case addr_value f of
             None \<Rightarrow> None
           | Some [] \<Rightarrow> None
           | Some (a # _) \<Rightarrow> address a))"

definition Seen :: string where
  "Seen = backslash # ''Seen''"

text \<open>The object literal of \<^verbatim>\<open>processAndIndexEmail\<close>, with the date already chosen.\<close>

definition emailDocument_of ::
  "FetchMessageObject \<Rightarrow> string \<Rightarrow> string \<Rightarrow> ParsedMail \<Rightarrow> AICategory \<Rightarrow> Date \<Rightarrow> EmailDocument"
where
  "emailDocument_of msg accountId fldr parsed aiCategory d =
     \<lparr> id_doc = accountId @ ''-'' @ string_of_nat (msg_uid msg),
       account_id = accountId,
       folder = fldr,
       message_id = or_else (parsed_messageId parsed) (''no-id-'' @ string_of_nat (msg_uid msg)),
       subject = or_else (parsed_subject parsed) ''(No Subject)'',
       body_text = or_else (parsed_text parsed) [],
       body_html = or_else (or_opt (parsed_html parsed) (parsed_textAsHtml parsed)) [],
       from_doc = or_else (from_address parsed) ''unknown@example.com'',
       to_doc = toList parsed,
       date = d,
       ai_category = aiCategory,
       read = (case msg_flags msg of Some fs \<Rightarrow> Seen \<in> set fs | None \<Rightarrow> False),
       flags = (case msg_flags msg of Some fs \<Rightarrow> fs | None \<Rightarrow> []) \<rparr>"

definition process_parsed ::
  "env \<Rightarrow> FetchMessageObject \<Rightarrow> string \<Rightarrow> string \<Rightarrow> ParsedMail \<Rightarrow> unit prog"
where
  "process_parsed env msg accountId fldr parsed =
     bindE (categorizeEmail env
              (or_else (parsed_subject parsed) ''(No Subject)'')
              (or_else (or_opt (parsed_text parsed) (parsed_html parsed)) [])) (\<lambda>aiCategory.
     bindE (date_or_now env (parsed_date parsed)) (\<lambda>d.
     let emailDocument = emailDocument_of msg accountId fldr parsed aiCategory d in
     bindE (indexDocument env emailDocument) (\<lambda>_.
     bindE (console_log (imap_tag accountId @ '' Indexed: '' @ [dquote]
              @ take 40 (subject emailDocument) @ ''...'' @ [dquote] @ '' -> Category: ''
              @ aiCategory)) (\<lambda>_.
     if aiCategory = ''Interested'' then triggerInterestedAutomation env emailDocument
     else returnE ()))))"

definition processAndIndexEmail ::
  "env \<Rightarrow> FetchMessageObject \<Rightarrow> string \<Rightarrow> string \<Rightarrow> unit prog"
where
  "processAndIndexEmail env msg accountId fldr =
     try_catch
       (case msg_source msg of
          None \<Rightarrow>
            console_warn (imap_tag accountId @ '' No source buffer for UID ''
              @ string_of_nat (msg_uid msg) @ ''; skipping.'')
        | Some sourceBuffer \<Rightarrow>
            bindE (liftE (simpleParser env sourceBuffer)) (\<lambda>parsed.
              process_parsed env msg accountId fldr parsed))
       (\<lambda>error. console_error (imap_tag accountId @ '' Error processing UID ''
                   @ string_of_nat (msg_uid msg) @ '': '' @ errorMsg error))"

subsection \<open>The mailbox session\<close>

definition imap_connect :: "env \<Rightarrow> string \<Rightarrow> unit prog" where
  "imap_connect env accountId =
     (\<lambda>w. (case client_connect env accountId of Some error \<Rightarrow> Inl error | None \<Rightarrow> Inr (),
            w\<lparr>imap_calls := imap_calls w @ [Connect accountId]\<rparr>))"

definition imap_getMailboxLock :: "env \<Rightarrow> string \<Rightarrow> string \<Rightarrow> unit prog" where
  "imap_getMailboxLock env accountId path =
     (\<lambda>w. (case client_getMailboxLock env accountId path of
              Some error \<Rightarrow> Inl error
            | None \<Rightarrow> Inr (),
            w\<lparr>imap_calls := imap_calls w @ [GetMailboxLock accountId path]\<rparr>))"

definition lock_release :: "string \<Rightarrow> string \<Rightarrow> world \<Rightarrow> world" where
  "lock_release accountId path w = w\<lparr>imap_calls := imap_calls w @ [Release accountId path]\<rparr>"

definition imap_search :: "env \<Rightarrow> string \<Rightarrow> search_criteria \<Rightarrow> nat list option prog" where
  "imap_search env accountId criteria =
     (\<lambda>w. (client_search env accountId criteria,
            w\<lparr>imap_calls := imap_calls w @ [Search accountId criteria]\<rparr>))"

definition imap_fetchOne :: "env \<Rightarrow> string \<Rightarrow> nat \<Rightarrow> FetchMessageObject option prog" where
  "imap_fetchOne env accountId uid =
     (\<lambda>w. (client_fetchOne env accountId uid,
            w\<lparr>imap_calls := imap_calls w @ [FetchOne accountId uid]\<rparr>))"

text \<open>\<^verbatim>\<open>Array.isArray(searchResult) ? searchResult : []\<close>\<close>

definition uids_of :: "nat list option \<Rightarrow> nat list" where
  "uids_of searchResult = (case searchResult of Some us \<Rightarrow> us | None \<Rightarrow> [])"

subsection \<open>Historical sync\<close>

text \<open>
  A \<open>Date\<close> is its time value: milliseconds since the epoch, in UTC. The local time zone
  enters through \<open>LocalTZA t isUTC\<close>, the offset of local time at the UTC time \<open>t\<close>
  (\<open>isUTC\<close> true) or at the local time \<open>t\<close> (\<open>isUTC\<close> false), as ECMAScript defines
  \<^verbatim>\<open>LocalTime\<close> and \<^verbatim>\<open>UTC\<close>.
\<close>

definition msPerDay :: int where
  "msPerDay = 86400000"

definition LocalTime :: "env \<Rightarrow> int \<Rightarrow> int" where
  "LocalTime env t = t + LocalTZA env t True"

definition UTC_of :: "env \<Rightarrow> int \<Rightarrow> int" where
  "UTC_of env t = t - LocalTZA env t False"

text \<open>
  \<^verbatim>\<open>date30DaysAgo.setDate(date30DaysAgo.getDate() - 30)\<close>: the local time is moved back
  thirty calendar days, keeping the time within the day (\<^verbatim>\<open>MakeDay\<close> with the day of the
  month lowered by thirty is the day number lowered by thirty), and read back as UTC.
\<close>

definition date30DaysAgo :: "env \<Rightarrow> Date \<Rightarrow> Date" where
  "date30DaysAgo env now = UTC_of env (LocalTime env now - 30 * msPerDay)"

text \<open>
  \<^verbatim>\<open>toISOString().split('T')[0]\<close> is the UTC calendar day of that time, kept as the number
  of the day since the epoch.
\<close>

definition sinceDate :: "env \<Rightarrow> Date \<Rightarrow> int" where
  "sinceDate env now = date30DaysAgo env now div msPerDay"

text \<open>The body of \<^verbatim>\<open>for (const uid of uids)\<close>, and the loop.\<close>

definition fetch_and_process :: "env \<Rightarrow> string \<Rightarrow> string \<Rightarrow> nat \<Rightarrow> unit prog" where
  "fetch_and_process env accountId fldr uid =
     bindE (imap_fetchOne env accountId uid) (\<lambda>msg.
       case msg of
         Some m \<Rightarrow> processAndIndexEmail env m accountId fldr
       | None \<Rightarrow> returnE ())"

primrec for_uids :: "env \<Rightarrow> string \<Rightarrow> string \<Rightarrow> nat list \<Rightarrow> unit prog" where
  "for_uids env accountId fldr [] = returnE ()"
| "for_uids env accountId fldr (uid # uids) =
     bindE (fetch_and_process env accountId fldr uid) (\<lambda>_. for_uids env accountId fldr uids)"

definition initialSync :: "env \<Rightarrow> string \<Rightarrow> unit prog" where
  "initialSync env accountId =
     bindE (console_log (imap_tag accountId @ '' Starting 30-day historical sync...'')) (\<lambda>_.
     bindE (new_Date env) (\<lambda>now.
     bindE (imap_getMailboxLock env accountId ''INBOX'') (\<lambda>_.
     bindE (try_finally
              (bindE (imap_search env accountId (Since (sinceDate env now))) (\<lambda>searchResult.
               bindE (console_log (imap_tag accountId @ '' Found ''
                        @ string_of_nat (length (uids_of searchResult))
                        @ '' emails in the last 30 days.'')) (\<lambda>_.
               for_uids env accountId ''INBOX'' (uids_of searchResult))))
              (lock_release accountId ''INBOX'')) (\<lambda>_.
     console_log (imap_tag accountId @ '' Historical sync complete.'')))))"

subsection \<open>Live sync\<close>

text \<open>The callback registered for \<^verbatim>\<open>'exists'\<close>.\<close>

definition on_exists :: "env \<Rightarrow> string \<Rightarrow> string \<Rightarrow> nat \<Rightarrow> unit prog" where
  "on_exists env accountId path count =
     bindE (console_log (idle_tag accountId @ '' New message detected in '' @ path
              @ ''. Total count: '' @ string_of_nat count)) (\<lambda>_.
     try_catch
       (bindE (imap_getMailboxLock env accountId path) (\<lambda>_.
        try_finally
          (bindE (imap_search env accountId Unseen) (\<lambda>searchResult.
             let uids = uids_of searchResult in
             if length uids > 0 then
               (let latestUid = uids ! (length uids - 1) in
                bindE (console_log (idle_tag accountId @ '' Fetching new message with UID: ''
                         @ string_of_nat latestUid)) (\<lambda>_.
                fetch_and_process env accountId path latestUid))
             else returnE ()))
          (lock_release accountId path)))
       (\<lambda>error. console_error (idle_tag accountId @ '' Error processing new mail: ''
                   @ error_message_any error)))"

definition setupRealTimeIdle :: "string \<Rightarrow> unit prog" where
  "setupRealTimeIdle accountId =
     (\<lambda>w. console_log (imap_tag accountId @ '' Real-Time IDLE mode listening...'')
            (w\<lparr>exists_handlers := exists_handlers w @ [accountId],
               error_handlers := error_handlers w @ [accountId]\<rparr>))"

subsection \<open>Accounts\<close>

definition connectAndSyncAccount :: "env \<Rightarrow> AccountConfig \<Rightarrow> unit prog" where
  "connectAndSyncAccount env config =
     (\<lambda>w. try_catch
            (bindE (imap_connect env (id_cfg config)) (\<lambda>_.
             bindE (console_log (imap_tag (id_cfg config) @ '' Connected successfully.'')) (\<lambda>_.
             bindE (initialSync env (id_cfg config)) (\<lambda>_.
             setupRealTimeIdle (id_cfg config)))))
            (\<lambda>error. console_error (imap_tag (id_cfg config) @ '' Connection or sync failed: ''
                        @ errorMsg error))
            (w\<lparr>clients := (clients w)(id_cfg config \<mapsto> config)\<rparr>))"

definition sync_allowed :: "AccountConfig \<Rightarrow> bool" where
  "sync_allowed config =
     (id_cfg config \<noteq> ''placeholder-account-2''
      \<or> (truthy (auth_user config) \<and> truthy (auth_pass config)))"

text \<open>The body of \<^verbatim>\<open>for (const config of ACCOUNT_CONFIGS)\<close>, and the loop.\<close>

definition sync_config :: "env \<Rightarrow> AccountConfig \<Rightarrow> unit prog" where
  "sync_config env config =
     (if sync_allowed config then connectAndSyncAccount env config
      else console_warn (imap_tag (id_cfg config)
             @ '' Skipping sync: Credentials missing in .env.''))"




section \<open>Vocabulary of the statements\<close>

definition session_of :: "world \<Rightarrow> imap_call list \<times> (string \<rightharpoonup> AccountConfig) \<times> string list \<times> string list" where
  "session_of w = (imap_calls w, clients w, exists_handlers w, error_handlers w)"

text \<open>What the classification leaves alone.\<close>

definition ai_frame :: "world \<Rightarrow> world \<Rightarrow> bool" where
  "ai_frame w w' \<longleftrightarrow>
     es_index w' = es_index w \<and> es_requests w' = es_requests w
     \<and> automation_calls w' = automation_calls w \<and> http_posts w' = http_posts w
     \<and> clock_reads w' = clock_reads w \<and> session_of w' = session_of w
     \<and> (\<exists>ls. console w' = console w @ ls)"

definition automation_frame :: "world \<Rightarrow> world \<Rightarrow> bool" where
  "automation_frame w w' \<longleftrightarrow>
     es_index w' = es_index w \<and> es_requests w' = es_requests w
     \<and> openai_requests w' = openai_requests w
     \<and> clock_reads w' = clock_reads w \<and> session_of w' = session_of w
     \<and> (\<exists>ls. console w' = console w @ ls)"

definition failed_to_index :: "EmailDocument \<Rightarrow> thrown \<Rightarrow> console_line" where
  "failed_to_index d e =
     ErrorLine (''[Elasticsearch] Failed to index email ID '' @ id_doc d @ '': '' @ errorMsg e)"

definition date_used :: "env \<Rightarrow> ParsedMail \<Rightarrow> world \<Rightarrow> Date" where
  "date_used env parsed w =
     (case parsed_date parsed of Some t \<Rightarrow> t | None \<Rightarrow> clock env (clock_reads w))"

text \<open>
  The traces only grow: IMAP commands, handlers, index requests and console lines are
  appended, never removed, and no key leaves the index.
\<close>

definition session_grows :: "world \<Rightarrow> world \<Rightarrow> bool" where
  "session_grows w w' \<longleftrightarrow>
     (\<exists>xs. imap_calls w' = imap_calls w @ xs) \<and> (\<exists>ys. exists_handlers w' = exists_handlers w @ ys)
     \<and> (\<exists>zs. es_requests w' = es_requests w @ zs) \<and> (\<exists>ls. console w' = console w @ ls)
     \<and> dom (es_index w) \<subseteq> dom (es_index w')"

definition grows_under :: "'a prog \<Rightarrow> bool" where
  "grows_under m \<longleftrightarrow> (\<forall>w. session_grows w (snd (m w)))"

text \<open>An async function that never rejects.\<close>

definition never_throws :: "'a prog \<Rightarrow> bool" where
  "never_throws m \<longleftrightarrow> (\<forall>w. \<exists>a. fst (m w) = Inr a)"

text \<open>The world after one more \<^verbatim>\<open>fetchOne\<close> command.\<close>

definition fetched :: "string \<Rightarrow> nat \<Rightarrow> world \<Rightarrow> world" where
  "fetched acc u w = w\<lparr>imap_calls := imap_calls w @ [FetchOne acc u]\<rparr>"

text \<open>
  The addresses that a recipient field offers: those that are present and not empty, in
  the order of the recipients.
\<close>

definition usable_addresses :: "to_field \<Rightarrow> string list" where
  "usable_addresses t =
     [s. r \<leftarrow> (case t of AddressObjects rs \<Rightarrow> rs | OneAddressObject r \<Rightarrow> [r]),
         as \<leftarrow> (case addr_value r of Some as \<Rightarrow> [as] | None \<Rightarrow> []),
         a \<leftarrow> as,
         s \<leftarrow> (case address a of Some s \<Rightarrow> [s] | None \<Rightarrow> []),
         s \<noteq> []]"

text \<open>
  The messages of a mailbox have reached the store: for every listed UID whose fetch
  returns a message that the parser accepts, a document with the key of that message was
  sent to Elasticsearch for this account and folder, and the index holds that key when
  Elasticsearch accepted the document.
\<close>

definition backfilled :: "env \<Rightarrow> string \<Rightarrow> string \<Rightarrow> nat list \<Rightarrow> world \<Rightarrow> bool" where
  "backfilled env accountId fldr uids w \<longleftrightarrow>
     (\<forall>u\<in>set uids. \<forall>m buf parsed.
        client_fetchOne env accountId u = Inr (Some m) \<and> msg_source m = Some buf
        \<and> simpleParser env buf = Inr parsed \<longrightarrow>
        (\<exists>d\<in>set (es_requests w).
           id_doc d = accountId @ ''-'' @ string_of_nat (msg_uid m)
           \<and> account_id d = accountId \<and> folder d = fldr
           \<and> (client_index env d = None \<longrightarrow> id_doc d \<in> dom (es_index w))))"


subsection \<open>Test doubles\<close>

definition empty_world :: world where
  "empty_world =
     \<lparr> es_index = Map.empty, es_requests = [], openai_requests = [], automation_calls = [],
       http_posts = [], console = [], imap_calls = [], clients = Map.empty,
       exists_handlers = [], error_handlers = [], clock_reads = 0 \<rparr>"

text \<open>The JSON text of an answer with one label, and a parser that reads two of them.\<close>

definition json_answer :: "string \<Rightarrow> string" where
  "json_answer l = ''{'' @ [dquote] @ ''category'' @ [dquote] @ '':'' @ [dquote] @ l @ [dquote] @ ''}''"

definition test_JSON_parse :: "string \<Rightarrow> thrown + json" where
  "test_JSON_parse raw =
     (if raw = json_answer ''Interested'' then Inr (JObject [(''category'', JString ''Interested'')])
      else if raw = json_answer ''Maybe'' then Inr (JObject [(''category'', JString ''Maybe'')])
      else if raw = ''null'' then Inr JNull
      else Inl (Error ''Unexpected token''))"

definition test_parsed :: ParsedMail where
  "test_parsed =
     \<lparr> parsed_subject = Some ''Re: Proposal'', parsed_text = Some ''Sounds good'',
       parsed_html = None, parsed_textAsHtml = None, parsed_messageId = None,
       parsed_from = None, parsed_to = None, parsed_date = None \<rparr>"

definition test_msg :: "nat \<Rightarrow> FetchMessageObject" where
  "test_msg u = \<lparr> msg_uid = u, msg_source = Some ''raw'', msg_flags = None \<rparr>"

text \<open>
  A test double of the collaborators: every service is reachable, the oracle answers
  \<^verbatim>\<open>Interested\<close>, the mailbox holds the messages 1 and 2, the clock advances by one
  millisecond at each reading, and local time is UTC.
\<close>

definition test_env :: env where
  "test_env =
     \<lparr> OPENAI_API_KEY = Some ''sk-test'', SLACK_WEBHOOK_URL = None, EXTERNAL_WEBHOOK_URL = None,
       IMAP_ACCOUNT_1_USER = Some ''user1'', IMAP_ACCOUNT_1_PASS = Some ''pass1'',
       IMAP_ACCOUNT_2_HOST = None, IMAP_ACCOUNT_2_USER = None, IMAP_ACCOUNT_2_PASS = None,
       clock = (\<lambda>n. 1700000000000 + int n),
       LocalTZA = (\<lambda>t isUTC. 0),
       simpleParser = (\<lambda>b. if b = ''raw'' then Inr test_parsed else Inl (Error ''parse error'')),
       chat_completions_create = (\<lambda>sys usr. Inr [Some (json_answer ''Interested'')]),
       JSON_parse = test_JSON_parse,
       client_index = (\<lambda>d. None),
       axios_post = (\<lambda>url body. None),
       client_connect = (\<lambda>a. None),
       client_getMailboxLock = (\<lambda>a p. None),
       client_search = (\<lambda>a c. Inr (Some [1, 2])),
       client_fetchOne = (\<lambda>a u. Inr (Some (test_msg u))) \<rparr>"

definition bare_parsed :: ParsedMail where
  "bare_parsed =
     \<lparr> parsed_subject = None, parsed_text = None, parsed_html = None, parsed_textAsHtml = None,
       parsed_messageId = None, parsed_from = None, parsed_to = None, parsed_date = None \<rparr>"

text \<open>
  Variations: a mailbox whose search also returns a message dated in 1970, a mailbox
  whose first fetch throws, a mailbox whose first message has no source, and a server that
  refuses the first account.
\<close>

definition old_mail_env :: env where
  "old_mail_env =
     test_env\<lparr>
       simpleParser := (\<lambda>b. if b = ''old'' then Inr (test_parsed\<lparr>parsed_date := Some 0\<rparr>)
                            else Inr (test_parsed\<lparr>parsed_date := Some 1699999000000\<rparr>)),
       client_fetchOne := (\<lambda>a u. Inr (Some \<lparr>msg_uid = u,
                              msg_source = Some (if u = 2 then ''old'' else ''raw''),
                              msg_flags = None\<rparr>)) \<rparr>"




text \<open>
  A message whose From header is present without a usable address, and whose To header
  mixes usable addresses with entries that have none.
\<close>

definition undisclosed_parsed :: ParsedMail where
  "undisclosed_parsed =
     \<lparr> parsed_subject = Some ''Hello'', parsed_text = Some ''Body'',
       parsed_html = None, parsed_textAsHtml = Some ''<p>Body</p>'',
       parsed_messageId = Some ''<m1@x.io>'',
       parsed_from = Some \<lparr>addr_value = Some [\<lparr>address = None\<rparr>]\<rparr>,
       parsed_to = Some (AddressObjects
         [\<lparr>addr_value = Some [\<lparr>address = Some ''a@x.io''\<rparr>, \<lparr>address = None\<rparr>]\<rparr>,
          \<lparr>addr_value = None\<rparr>,
          \<lparr>addr_value = Some [\<lparr>address = Some []\<rparr>, \<lparr>address = Some ''b@y.io''\<rparr>]\<rparr>]),
       parsed_date = Some 1600000000000 \<rparr>"

text \<open>
  A host in New York on 2023-11-14 00:30 UTC: local time is five hours behind UTC, and was
  four hours behind until the clocks changed on 2023-11-05.
\<close>

definition new_york_env :: env where
  "new_york_env =
     test_env\<lparr>clock := (\<lambda>n. 1699921800000 + int n),
       LocalTZA := (\<lambda>t isUTC. if t < (if isUTC then 1699164000000 else 1699149600000)
                               then - 14400000 else - 18000000)\<rparr>"

section \<open>Basic facts\<close>

lemmas prog_defs = returnE_def bindE_def try_catch_def try_finally_def liftE_def
  console_log_def console_warn_def console_error_def

lemma ai_frame_refl: "ai_frame w w"
  by (simp add: ai_frame_def)

lemma ai_frame_console: "ai_frame w (w\<lparr>console := console w @ ls\<rparr>)"
  by (simp add: ai_frame_def session_of_def)

lemma validate_category_result:
  "\<exists>c. c \<in> set VALID_CATEGORIES
      \<and> (c = ''Uncategorized'' \<or> category = Some (JString c))
      \<and> (\<not> valid_category category \<longrightarrow> c = ''Uncategorized'')
      \<and> (\<forall>w. \<exists>w'. validate_category category w = (Inr c, w') \<and> ai_frame w w')"
proof (cases "valid_category category")
  case True
  then obtain s where "category = Some (JString s)" "s \<in> set VALID_CATEGORIES"
    by (auto simp: valid_category_def split: option.splits json.splits)
  then show ?thesis using True
    by (auto simp: validate_category_def returnE_def ai_frame_refl)
next
  case False
  then show ?thesis
    by (auto simp: validate_category_def invalid_category_def VALID_CATEGORIES_def prog_defs
        ai_frame_console)
qed

text \<open>The answer does not depend on the world, and a throw leaves the frame intact too.\<close>

lemma classify_rawJson_result:
  "\<exists>r. (\<forall>c. r = Inr c \<longrightarrow> c \<in> set VALID_CATEGORIES)
      \<and> (\<forall>w. \<exists>w'. classify_rawJson env rawJson w = (r, w') \<and> ai_frame w w')"
proof (cases "truthy rawJson")
  case False
  then show ?thesis
    by (auto simp: classify_rawJson_def empty_response_def prog_defs VALID_CATEGORIES_def
        ai_frame_console)
next
  case True
  then obtain raw where raw: "rawJson = Some raw"
    by (auto simp: truthy_def split: option.splits)
  show ?thesis
  proof (cases "JSON_parse env raw")
    case (Inl e)
    then show ?thesis using raw True
      by (auto simp: classify_rawJson_def prog_defs ai_frame_refl)
  next
    case (Inr result)
    show ?thesis
    proof (cases "get_category result")
      case (Inl e)
      then show ?thesis using raw True Inr
        by (auto simp: classify_rawJson_def prog_defs ai_frame_refl)
    next
      case cat: (Inr category)
      obtain c where "c \<in> set VALID_CATEGORIES"
        "\<forall>w. \<exists>w'. validate_category category w = (Inr c, w') \<and> ai_frame w w'"
        using validate_category_result [of category] by blast
      then show ?thesis using raw True Inr cat
        by (auto simp: classify_rawJson_def prog_defs intro!: exI[of _ "Inr c"])
    qed
  qed
qed

lemma categorizeEmail_result:
  "\<exists>c. c \<in> set VALID_CATEGORIES
      \<and> (\<forall>w. \<exists>w'. categorizeEmail env subj body w = (Inr c, w') \<and> ai_frame w w')"
proof (cases "truthy (OPENAI_API_KEY env)")
  case False
  then show ?thesis
    by (auto simp: categorizeEmail_def returnE_def VALID_CATEGORIES_def ai_frame_refl)
next
  case True
  let ?req = "\<lambda>w. w\<lparr>openai_requests := openai_requests w @ [(systemPrompt, userPrompt subj body)]\<rparr>"
  have U: "''Uncategorized'' \<in> set VALID_CATEGORIES" by (simp add: VALID_CATEGORIES_def)
  show ?thesis
  proof (cases "chat_completions_create env systemPrompt (userPrompt subj body)")
    case (Inl e)
    have "\<forall>w. \<exists>w'. categorizeEmail env subj body w = (Inr ''Uncategorized'', w') \<and> ai_frame w w'"
      using True Inl
      by (auto simp: categorizeEmail_def prog_defs openai_create_def ai_frame_def session_of_def)
    then show ?thesis using U by blast
  next
    case (Inr choices)
    show ?thesis
    proof (cases choices)
      case Nil
      have "\<forall>w. \<exists>w'. categorizeEmail env subj body w = (Inr ''Uncategorized'', w') \<and> ai_frame w w'"
        using True Inr Nil
        by (auto simp: categorizeEmail_def prog_defs openai_create_def first_content_def
            ai_frame_def session_of_def)
      then show ?thesis using U by blast
    next
      case (Cons rawJson rest)
      obtain r where r: "\<forall>c. r = Inr c \<longrightarrow> c \<in> set VALID_CATEGORIES"
        "\<forall>w. \<exists>w'. classify_rawJson env rawJson w = (r, w') \<and> ai_frame w w'"
        using classify_rawJson_result [of env rawJson] by blast
      show ?thesis
      proof (cases r)
        case (Inl e)
        have "\<exists>w'. categorizeEmail env subj body w = (Inr ''Uncategorized'', w') \<and> ai_frame w w'" for w
        proof -
          obtain w1 where "classify_rawJson env rawJson (?req w) = (Inl e, w1)" "ai_frame (?req w) w1"
            using r(2) Inl by blast
          then show ?thesis using True Inr Cons
            by (auto simp: categorizeEmail_def prog_defs openai_create_def first_content_def
                ai_frame_def session_of_def)
        qed
        then show ?thesis using U by blast
      next
        case c: (Inr c)
        have "\<exists>w'. categorizeEmail env subj body w = (Inr c, w') \<and> ai_frame w w'" for w
        proof -
          obtain w1 where "classify_rawJson env rawJson (?req w) = (Inr c, w1)" "ai_frame (?req w) w1"
            using r(2) c by blast
          then show ?thesis using True Inr Cons
            by (auto simp: categorizeEmail_def prog_defs openai_create_def first_content_def
                ai_frame_def session_of_def)
        qed
        then show ?thesis using r(1) c by blast
      qed
    qed
  qed
qed


lemma indexDocument_eq:
  "indexDocument env d w =
     (Inr (),
      case client_index env d of
        None \<Rightarrow> w\<lparr>es_requests := es_requests w @ [d], es_index := (es_index w)(id_doc d \<mapsto> d)\<rparr>
      | Some e \<Rightarrow> w\<lparr>es_requests := es_requests w @ [d],
                     console := console w @ [ErrorLine (''[Elasticsearch] Failed to index email ID ''
                        @ id_doc d @ '': '' @ errorMsg e)]\<rparr>)"
  by (simp add: indexDocument_def es_client_index_def prog_defs Let_def split: option.splits)

lemma sendSlackNotification_result:
  "\<exists>w'. sendSlackNotification env url d w = (Inr (), w') \<and> automation_frame w w'
        \<and> automation_calls w' = automation_calls w"
  by (auto simp: sendSlackNotification_def http_post_def prog_defs automation_frame_def session_of_def
      split: option.splits)

lemma triggerExternalWebhook_result:
  "\<exists>w'. triggerExternalWebhook env url d w = (Inr (), w') \<and> automation_frame w w'
        \<and> automation_calls w' = automation_calls w"
  by (auto simp: triggerExternalWebhook_def http_post_def prog_defs automation_frame_def session_of_def
      split: option.splits)

lemma automation_frame_trans:
  "automation_frame w w1 \<Longrightarrow> automation_frame w1 w2 \<Longrightarrow> automation_frame w w2"
  by (auto simp: automation_frame_def)

lemma automation_frame_console: "automation_frame w (w\<lparr>console := console w @ ls\<rparr>)"
  by (simp add: automation_frame_def session_of_def)

lemma slack_step_result:
  "\<exists>w'. (case SLACK_WEBHOOK_URL env of
              Some url \<Rightarrow>
                if url \<noteq> [] then sendSlackNotification env url d
                else console_warn ''[Automation] SLACK_WEBHOOK_URL not set. Skipping Slack notification.''
            | None \<Rightarrow>
                console_warn ''[Automation] SLACK_WEBHOOK_URL not set. Skipping Slack notification.'') w
         = (Inr (), w') \<and> automation_frame w w' \<and> automation_calls w' = automation_calls w"
  using sendSlackNotification_result [of env _ d w]
  by (auto simp: console_warn_def automation_frame_console split: option.splits)

lemma webhook_step_result:
  "\<exists>w'. (case EXTERNAL_WEBHOOK_URL env of
        Some url \<Rightarrow>
          if url \<noteq> [] then triggerExternalWebhook env url d
          else console_warn ''[Automation] EXTERNAL_WEBHOOK_URL not set. Skipping external webhook.''
      | None \<Rightarrow>
          console_warn ''[Automation] EXTERNAL_WEBHOOK_URL not set. Skipping external webhook.'') w
         = (Inr (), w') \<and> automation_frame w w' \<and> automation_calls w' = automation_calls w"
  using triggerExternalWebhook_result [of env _ d w]
  by (auto simp: console_warn_def automation_frame_console split: option.splits)

lemma triggerInterestedAutomation_result:
  "\<exists>w'. triggerInterestedAutomation env d w = (Inr (), w') \<and> automation_frame w w'
        \<and> automation_calls w' = automation_calls w @ [d]"
proof -
  define w1 where "w1 = w\<lparr>automation_calls := automation_calls w @ [d]\<rparr>"
  define w2 where "w2 = w1\<lparr>console := console w1 @ [Log (''[Automation] Triggering automation for '' @ id_doc d
              @ '' (Category: '' @ ai_category d @ '')'')]\<rparr>"
  have f2: "automation_frame w w2" "automation_calls w2 = automation_calls w @ [d]"
    by (simp_all add: w1_def w2_def automation_frame_def session_of_def)
  obtain w3 where w3: "(case SLACK_WEBHOOK_URL env of
              Some url \<Rightarrow>
                if url \<noteq> [] then sendSlackNotification env url d
                else console_warn ''[Automation] SLACK_WEBHOOK_URL not set. Skipping Slack notification.''
            | None \<Rightarrow>
                console_warn ''[Automation] SLACK_WEBHOOK_URL not set. Skipping Slack notification.'') w2
         = (Inr (), w3)" "automation_frame w2 w3" "automation_calls w3 = automation_calls w2"
    using slack_step_result [of env d w2] by blast
  obtain w4 where w4: "(case EXTERNAL_WEBHOOK_URL env of
        Some url \<Rightarrow>
          if url \<noteq> [] then triggerExternalWebhook env url d
          else console_warn ''[Automation] EXTERNAL_WEBHOOK_URL not set. Skipping external webhook.''
      | None \<Rightarrow>
          console_warn ''[Automation] EXTERNAL_WEBHOOK_URL not set. Skipping external webhook.'') w3
         = (Inr (), w4)" "automation_frame w3 w4" "automation_calls w4 = automation_calls w3"
    using webhook_step_result [of env d w3] by blast
  have s1: "bindE (enter_automation d) f w = f () w1" for f :: "unit \<Rightarrow> unit prog"
    by (simp add: bindE_def enter_automation_def w1_def)
  have s2: "bindE (console_log (''[Automation] Triggering automation for '' @ id_doc d
              @ '' (Category: '' @ ai_category d @ '')'')) f w1 = f () w2" for f :: "unit \<Rightarrow> unit prog"
    by (simp add: bindE_def console_log_def w2_def)
  have s3: "bindE (case SLACK_WEBHOOK_URL env of
              Some url \<Rightarrow>
                if url \<noteq> [] then sendSlackNotification env url d
                else console_warn ''[Automation] SLACK_WEBHOOK_URL not set. Skipping Slack notification.''
            | None \<Rightarrow>
                console_warn ''[Automation] SLACK_WEBHOOK_URL not set. Skipping Slack notification.'') f w2
         = f () w3" for f :: "unit \<Rightarrow> unit prog"
    by (simp add: bindE_def w3(1))
  have "triggerInterestedAutomation env d w = (Inr (), w4)"
    unfolding triggerInterestedAutomation_def
    by (simp only: s1 s2 s3 w4(1))
  moreover have "automation_frame w w4"
    using f2(1) w3(2) w4(2) automation_frame_trans by blast
  ultimately show ?thesis using f2(2) w3(3) w4(3) by simp
qed


lemma process_parsed_result:
  "\<exists>c. c \<in> set VALID_CATEGORIES
     \<and> (\<forall>w0. fst (categorizeEmail env (or_else (parsed_subject parsed) ''(No Subject)'')
                  (or_else (or_opt (parsed_text parsed) (parsed_html parsed)) []) w0) = Inr c)
     \<and> (\<forall>w. \<exists>w'. process_parsed env msg acc f parsed w = (Inr (), w')
           \<and> es_requests w' = es_requests w @ [emailDocument_of msg acc f parsed c (date_used env parsed w)]
           \<and> es_index w' =
               (case client_index env (emailDocument_of msg acc f parsed c (date_used env parsed w)) of
                  None \<Rightarrow> (es_index w)(acc @ ''-'' @ string_of_nat (msg_uid msg) \<mapsto>
                             emailDocument_of msg acc f parsed c (date_used env parsed w))
                | Some e \<Rightarrow> es_index w)
           \<and> automation_calls w' = automation_calls w @
                (if c = ''Interested''
                 then [emailDocument_of msg acc f parsed c (date_used env parsed w)] else [])
           \<and> clock_reads w' =
                (case parsed_date parsed of Some t \<Rightarrow> clock_reads w | None \<Rightarrow> Suc (clock_reads w))
           \<and> session_of w' = session_of w
           \<and> (\<exists>ls. console w' = console w @ ls)
           \<and> (\<forall>e. client_index env (emailDocument_of msg acc f parsed c (date_used env parsed w)) = Some e
                 \<longrightarrow> failed_to_index (emailDocument_of msg acc f parsed c (date_used env parsed w)) e
                       \<in> set (console w')))"
proof -
  let ?subj = "or_else (parsed_subject parsed) ''(No Subject)''"
  let ?body = "or_else (or_opt (parsed_text parsed) (parsed_html parsed)) []"
  obtain c where c: "c \<in> set VALID_CATEGORIES"
    "\<forall>w. \<exists>w'. categorizeEmail env ?subj ?body w = (Inr c, w') \<and> ai_frame w w'"
    using categorizeEmail_result [of env ?subj ?body] by blast
  have indep: "\<forall>w0. fst (categorizeEmail env ?subj ?body w0) = Inr c"
    using c(2) by (metis fst_conv)
  have main: "\<exists>w'. process_parsed env msg acc f parsed w = (Inr (), w')
           \<and> es_requests w' = es_requests w @ [emailDocument_of msg acc f parsed c (date_used env parsed w)]
           \<and> es_index w' =
               (case client_index env (emailDocument_of msg acc f parsed c (date_used env parsed w)) of
                  None \<Rightarrow> (es_index w)(acc @ ''-'' @ string_of_nat (msg_uid msg) \<mapsto>
                             emailDocument_of msg acc f parsed c (date_used env parsed w))
                | Some e \<Rightarrow> es_index w)
           \<and> automation_calls w' = automation_calls w @
                (if c = ''Interested''
                 then [emailDocument_of msg acc f parsed c (date_used env parsed w)] else [])
           \<and> clock_reads w' =
                (case parsed_date parsed of Some t \<Rightarrow> clock_reads w | None \<Rightarrow> Suc (clock_reads w))
           \<and> session_of w' = session_of w
           \<and> (\<exists>ls. console w' = console w @ ls)
           \<and> (\<forall>e. client_index env (emailDocument_of msg acc f parsed c (date_used env parsed w)) = Some e
                 \<longrightarrow> failed_to_index (emailDocument_of msg acc f parsed c (date_used env parsed w)) e
                       \<in> set (console w'))" for w
  proof -
    let ?d = "emailDocument_of msg acc f parsed c (date_used env parsed w)"
    have id_d: "id_doc ?d = acc @ ''-'' @ string_of_nat (msg_uid msg)"
      by (simp add: emailDocument_of_def)
    obtain w1 where w1: "categorizeEmail env ?subj ?body w = (Inr c, w1)" "ai_frame w w1"
      using c(2) by blast
    define w2 where "w2 = (case parsed_date parsed of Some t \<Rightarrow> w1
                           | None \<Rightarrow> w1\<lparr>clock_reads := Suc (clock_reads w1)\<rparr>)"
    have cr: "clock_reads w1 = clock_reads w"
      using w1(2) by (simp add: ai_frame_def)
    define w3 where "w3 = snd (indexDocument env ?d w2)"
    define w4 where "w4 = w3\<lparr>console := console w3 @ [Log (imap_tag acc @ '' Indexed: '' @ [dquote]
              @ take 40 (subject ?d) @ ''...'' @ [dquote] @ '' -> Category: '' @ c)]\<rparr>"
    obtain w5 where w5:
      "(if c = ''Interested'' then triggerInterestedAutomation env ?d else returnE ()) w4 = (Inr (), w5)"
      "automation_frame w4 w5"
      "automation_calls w5 = automation_calls w4 @ (if c = ''Interested'' then [?d] else [])"
    proof (cases "c = ''Interested''")
      case True
      obtain w' where "triggerInterestedAutomation env ?d w4 = (Inr (), w')" "automation_frame w4 w'"
        "automation_calls w' = automation_calls w4 @ [?d]"
        using triggerInterestedAutomation_result [of env ?d w4] by blast
      then show ?thesis
        using True that [of w'] by simp
    next
      case False
      then show ?thesis
        using that [of w4] by (simp add: returnE_def automation_frame_def)
    qed
    have b1: "bindE (categorizeEmail env ?subj ?body) k w = k c w1" for k :: "AICategory \<Rightarrow> unit prog"
      by (simp add: bindE_def w1(1))
    have b2: "bindE (date_or_now env (parsed_date parsed)) k w1 = k (date_used env parsed w) w2"
      for k :: "Date \<Rightarrow> unit prog"
      by (simp add: bindE_def date_or_now_def date_used_def new_Date_def returnE_def w2_def cr
          split: option.splits)
    have b3: "bindE (indexDocument env ?d) k w2 = k () w3" for k :: "unit \<Rightarrow> unit prog"
      by (simp add: bindE_def w3_def indexDocument_eq)
    have b4: "bindE (console_log (imap_tag acc @ '' Indexed: '' @ [dquote]
              @ take 40 (subject ?d) @ ''...'' @ [dquote] @ '' -> Category: '' @ c)) k w3 = k () w4"
      for k :: "unit \<Rightarrow> unit prog"
      by (simp add: bindE_def console_log_def w4_def)
    have run: "process_parsed env msg acc f parsed w = (Inr (), w5)"
      unfolding process_parsed_def Let_def
      by (simp only: b1 b2 b3 b4 w5(1))
    have f12: "es_requests w2 = es_requests w" "es_index w2 = es_index w"
      "automation_calls w2 = automation_calls w" "session_of w2 = session_of w"
      "\<exists>ls. console w2 = console w @ ls"
      "clock_reads w2 = (case parsed_date parsed of Some t \<Rightarrow> clock_reads w | None \<Rightarrow> Suc (clock_reads w))"
      using w1(2) by (auto simp: ai_frame_def w2_def session_of_def split: option.splits)
    have f3: "es_requests w3 = es_requests w2 @ [?d]"
      "es_index w3 = (case client_index env ?d of None \<Rightarrow> (es_index w2)(id_doc ?d \<mapsto> ?d) | Some e \<Rightarrow> es_index w2)"
      "automation_calls w3 = automation_calls w2" "session_of w3 = session_of w2"
      "clock_reads w3 = clock_reads w2"
      "\<exists>ls. console w3 = console w2 @ ls"
      "\<forall>e. client_index env ?d = Some e \<longrightarrow> failed_to_index ?d e \<in> set (console w3)"
      by (auto simp: w3_def indexDocument_eq session_of_def failed_to_index_def split: option.splits)
    have f4: "es_requests w4 = es_requests w3" "es_index w4 = es_index w3"
      "automation_calls w4 = automation_calls w3" "session_of w4 = session_of w3"
      "clock_reads w4 = clock_reads w3" "\<exists>ls. console w4 = console w3 @ ls"
      by (simp_all add: w4_def session_of_def)
    have f5: "es_requests w5 = es_requests w4" "es_index w5 = es_index w4"
      "session_of w5 = session_of w4" "clock_reads w5 = clock_reads w4"
      "\<exists>ls. console w5 = console w4 @ ls"
      using w5(2) by (auto simp: automation_frame_def)
    have cons: "\<exists>ls. console w5 = console w @ ls"
      using f12(5) f3(6) f4(6) f5(5) by auto
    have logged: "\<forall>e. client_index env ?d = Some e \<longrightarrow> failed_to_index ?d e \<in> set (console w5)"
      using f3(7) f4(6) f5(5) by auto
    have "es_index w5 = (case client_index env ?d of
                  None \<Rightarrow> (es_index w)(acc @ ''-'' @ string_of_nat (msg_uid msg) \<mapsto> ?d)
                | Some e \<Rightarrow> es_index w)"
      using f12(2) f3(2) f4(2) f5(2) id_d by (simp split: option.splits)
    moreover have "es_requests w5 = es_requests w @ [?d]"
      using f12(1) f3(1) f4(1) f5(1) by simp
    moreover have "automation_calls w5 = automation_calls w @ (if c = ''Interested'' then [?d] else [])"
      using f12(3) f3(3) f4(3) w5(3) by simp
    moreover have "clock_reads w5 =
        (case parsed_date parsed of Some t \<Rightarrow> clock_reads w | None \<Rightarrow> Suc (clock_reads w))"
      using f12(6) f3(5) f4(5) f5(4) by (simp split: option.splits)
    moreover have "session_of w5 = session_of w"
      using f12(4) f3(4) f4(4) f5(3) by simp
    ultimately show ?thesis
      using run cons logged by blast
  qed
  show ?thesis
    using c(1) indep main by blast
qed

lemma process_parsed_returns: "\<exists>w'. process_parsed env msg acc f parsed w = (Inr (), w')"
  using process_parsed_result [of env parsed msg acc f] by blast

lemma processAndIndexEmail_no_source:
  "msg_source msg = None \<Longrightarrow>
   processAndIndexEmail env msg acc f w =
     (Inr (), w\<lparr>console := console w @ [Warn (imap_tag acc @ '' No source buffer for UID ''
                   @ string_of_nat (msg_uid msg) @ ''; skipping.'')]\<rparr>)"
  by (simp add: processAndIndexEmail_def try_catch_def console_warn_def)

lemma processAndIndexEmail_parse_error:
  "msg_source msg = Some buf \<Longrightarrow> simpleParser env buf = Inl e \<Longrightarrow>
   processAndIndexEmail env msg acc f w =
     (Inr (), w\<lparr>console := console w @ [ErrorLine (imap_tag acc @ '' Error processing UID ''
                   @ string_of_nat (msg_uid msg) @ '': '' @ errorMsg e)]\<rparr>)"
  by (simp add: processAndIndexEmail_def prog_defs)

lemma processAndIndexEmail_parsed:
  "msg_source msg = Some buf \<Longrightarrow> simpleParser env buf = Inr parsed \<Longrightarrow>
   processAndIndexEmail env msg acc f w = process_parsed env msg acc f parsed w"
  using process_parsed_returns [of env msg acc f parsed w]
  by (auto simp: processAndIndexEmail_def try_catch_def bindE_def liftE_def)

lemma processAndIndexEmail_total:
  "\<exists>w'. processAndIndexEmail env msg acc f w = (Inr (), w') \<and> session_of w' = session_of w"
proof (cases "msg_source msg")
  case None
  then show ?thesis
    by (simp add: processAndIndexEmail_no_source session_of_def)
next
  case (Some buf)
  show ?thesis
  proof (cases "simpleParser env buf")
    case (Inl e)
    then show ?thesis using Some
      by (simp add: processAndIndexEmail_parse_error session_of_def)
  next
    case (Inr parsed)
    then show ?thesis
      using Some process_parsed_result [of env parsed msg acc f]
      by (auto simp: processAndIndexEmail_parsed)
  qed
qed

subsection \<open>Recipients\<close>

lemma join_nonempty: "xs \<noteq> [] \<Longrightarrow> \<forall>x\<in>set xs. x \<noteq> [] \<Longrightarrow> join sep xs \<noteq> []"
  by (induction sep xs rule: join.induct) simp_all

lemma usable_of_addresses:
  "List.map_filter (\<lambda>a. if truthy a then a else None) (map address as) =
     [s. a \<leftarrow> as, s \<leftarrow> (case address a of Some s \<Rightarrow> [s] | None \<Rightarrow> []), s \<noteq> []]"
  by (induction as) (auto simp: List.map_filter_def truthy_def split: option.splits)

lemma usable_of_recipient:
  "List.map_filter (\<lambda>a. if truthy a then a else None)
      (case addr_value r of Some as \<Rightarrow> map address as | None \<Rightarrow> []) =
     [s. as \<leftarrow> (case addr_value r of Some as \<Rightarrow> [as] | None \<Rightarrow> []), a \<leftarrow> as,
         s \<leftarrow> (case address a of Some s \<Rightarrow> [s] | None \<Rightarrow> []), s \<noteq> []]"
proof (cases "addr_value r")
  case None
  then show ?thesis by (simp add: List.map_filter_def)
next
  case (Some as)
  then show ?thesis by (simp add: usable_of_addresses)
qed

lemma map_filter_concat:
  "List.map_filter g (concat xss) = concat (map (List.map_filter g) xss)"
  by (induction xss) (simp_all add: List.map_filter_def)

lemma usable_of_recipients:
  "List.map_filter (\<lambda>a. if truthy a then a else None)
      (concat (map (\<lambda>recipient. case addr_value recipient of
                                    Some as \<Rightarrow> map address as
                                  | None \<Rightarrow> []) rs)) =
     [s. r \<leftarrow> rs, as \<leftarrow> (case addr_value r of Some as \<Rightarrow> [as] | None \<Rightarrow> []), a \<leftarrow> as,
         s \<leftarrow> (case address a of Some s \<Rightarrow> [s] | None \<Rightarrow> []), s \<noteq> []]"
  by (simp add: map_filter_concat comp_def usable_of_recipient)

lemma usable_addresses_nonempty: "\<forall>s\<in>set (usable_addresses t). s \<noteq> []"
  by (auto simp: usable_addresses_def split: option.splits if_splits)

lemma toList_usable:
  "toList parsed =
     (case parsed_to parsed of
        None \<Rightarrow> ''unknown@example.com''
      | Some t \<Rightarrow> if usable_addresses t = [] then ''unknown@example.com''
                  else join '', '' (usable_addresses t))"
proof (cases "parsed_to parsed")
  case None
  then show ?thesis by (simp add: toList_def)
next
  case (Some t)
  have eq: "List.map_filter (\<lambda>a. if truthy a then a else None)
      (concat (map (\<lambda>recipient. case addr_value recipient of
                                    Some as \<Rightarrow> map address as
                                  | None \<Rightarrow> [])
         (case t of AddressObjects rs \<Rightarrow> rs | OneAddressObject r \<Rightarrow> [r])))
      = usable_addresses t"
    unfolding usable_addresses_def by (rule usable_of_recipients)
  show ?thesis
  proof (cases "usable_addresses t = []")
    case True
    then show ?thesis
      using Some eq by (simp add: toList_def Let_def or_else_def)
  next
    case False
    then have "join '', '' (usable_addresses t) \<noteq> []"
      using join_nonempty usable_addresses_nonempty by blast
    then show ?thesis
      using Some eq False by (simp add: toList_def Let_def or_else_def)
  qed
qed

subsection \<open>The session\<close>

lemma session_grows_trans: "session_grows w w1 \<Longrightarrow> session_grows w1 w2 \<Longrightarrow> session_grows w w2"
  by (auto simp: session_grows_def)

lemma grows_bindE: "grows_under m \<Longrightarrow> (\<And>a. grows_under (f a)) \<Longrightarrow> grows_under (bindE m f)"
  unfolding grows_under_def bindE_def
proof (intro allI)
  fix w
  assume m: "\<forall>w. session_grows w (snd (m w))" and f: "\<And>a. \<forall>w. session_grows w (snd (f a w))"
  obtain r w1 where r: "m w = (r, w1)" by (cases "m w")
  then have g: "session_grows w w1" using m by (metis snd_conv)
  show "session_grows w (snd (case m w of (Inl e, w') \<Rightarrow> (Inl e, w') | (Inr a, w') \<Rightarrow> f a w'))"
  proof (cases r)
    case (Inl e)
    then show ?thesis using r g by simp
  next
    case (Inr a)
    then show ?thesis using r g f [of a] session_grows_trans by auto
  qed
qed

lemma grows_try_catch: "grows_under m \<Longrightarrow> (\<And>e. grows_under (h e)) \<Longrightarrow> grows_under (try_catch m h)"
  unfolding grows_under_def try_catch_def
proof (intro allI)
  fix w
  assume m: "\<forall>w. session_grows w (snd (m w))" and h: "\<And>e. \<forall>w. session_grows w (snd (h e w))"
  obtain r w1 where r: "m w = (r, w1)" by (cases "m w")
  then have g: "session_grows w w1" using m by (metis snd_conv)
  show "session_grows w (snd (case m w of (Inl e, w') \<Rightarrow> h e w' | (Inr a, w') \<Rightarrow> (Inr a, w')))"
  proof (cases r)
    case (Inl e)
    then show ?thesis using r g h [of e] session_grows_trans by auto
  next
    case (Inr a)
    then show ?thesis using r g by simp
  qed
qed

lemma grows_try_finally:
  "grows_under m \<Longrightarrow> (\<And>w. session_grows w (fin w)) \<Longrightarrow> grows_under (try_finally m fin)"
  unfolding grows_under_def try_finally_def
  by (auto simp: split_beta intro: session_grows_trans)

lemma grows_console [simp]:
  "grows_under (console_log s)" "grows_under (console_warn s)" "grows_under (console_error s)"
  by (simp_all add: grows_under_def session_grows_def console_log_def console_warn_def
      console_error_def)

lemma grows_returnE [simp]: "grows_under (returnE a)"
  by (simp add: grows_under_def session_grows_def returnE_def)

lemma grows_new_Date [simp]: "grows_under (new_Date env)"
  by (simp add: grows_under_def session_grows_def new_Date_def)

lemma grows_imap [simp]:
  "grows_under (imap_connect env acc)" "grows_under (imap_getMailboxLock env acc p)"
  "grows_under (imap_search env acc c)" "grows_under (imap_fetchOne env acc u)"
  by (simp_all add: grows_under_def session_grows_def imap_connect_def imap_getMailboxLock_def
      imap_search_def imap_fetchOne_def)

lemma grows_lock_release [simp]: "session_grows w (lock_release acc p w)"
  by (simp add: session_grows_def lock_release_def)

lemma grows_processAndIndexEmail [simp]: "grows_under (processAndIndexEmail env m acc f)"
  unfolding grows_under_def
proof
  fix w
  show "session_grows w (snd (processAndIndexEmail env m acc f w))"
  proof (cases "msg_source m")
    case None
    then show ?thesis
      by (simp add: processAndIndexEmail_no_source session_grows_def)
  next
    case (Some buf)
    show ?thesis
    proof (cases "simpleParser env buf")
      case (Inl e)
      then show ?thesis using Some
        by (simp add: processAndIndexEmail_parse_error session_grows_def)
    next
      case (Inr parsed)
      obtain c w' where "process_parsed env m acc f parsed w = (Inr (), w')"
        "es_requests w' = es_requests w @ [emailDocument_of m acc f parsed c (date_used env parsed w)]"
        "es_index w' =
           (case client_index env (emailDocument_of m acc f parsed c (date_used env parsed w)) of
              None \<Rightarrow> (es_index w)(acc @ ''-'' @ string_of_nat (msg_uid m) \<mapsto>
                         emailDocument_of m acc f parsed c (date_used env parsed w))
            | Some e \<Rightarrow> es_index w)"
        "session_of w' = session_of w" "\<exists>ls. console w' = console w @ ls"
        using process_parsed_result [of env parsed m acc f] by blast
      then show ?thesis using Some Inr
        by (auto simp: processAndIndexEmail_parsed session_grows_def session_of_def
            split: option.splits)
    qed
  qed
qed

lemma grows_fetch_and_process [simp]: "grows_under (fetch_and_process env acc f u)"
  unfolding fetch_and_process_def
  by (intro grows_bindE) (simp_all split: option.splits)

lemma grows_for_uids [simp]: "grows_under (for_uids env acc f uids)"
  by (induction uids) (simp_all add: grows_bindE)

lemma grows_initialSync [simp]: "grows_under (initialSync env acc)"
  unfolding initialSync_def
  by (intro grows_bindE grows_try_finally) simp_all

lemma grows_setupRealTimeIdle [simp]: "grows_under (setupRealTimeIdle acc)"
  by (simp add: grows_under_def session_grows_def setupRealTimeIdle_def console_log_def)

lemma grows_connectAndSyncAccount [simp]: "grows_under (connectAndSyncAccount env config)"
proof -
  have "grows_under (try_catch
            (bindE (imap_connect env (id_cfg config)) (\<lambda>_.
             bindE (console_log (imap_tag (id_cfg config) @ '' Connected successfully.'')) (\<lambda>_.
             bindE (initialSync env (id_cfg config)) (\<lambda>_.
             setupRealTimeIdle (id_cfg config)))))
            (\<lambda>error. console_error (imap_tag (id_cfg config) @ '' Connection or sync failed: ''
                        @ errorMsg error)))" (is "grows_under ?body")
    by (intro grows_bindE grows_try_catch) simp_all
  then have "session_grows (w\<lparr>clients := (clients w)(id_cfg config \<mapsto> config)\<rparr>)
      (snd (?body (w\<lparr>clients := (clients w)(id_cfg config \<mapsto> config)\<rparr>)))" for w
    by (simp add: grows_under_def)
  then show ?thesis
    unfolding grows_under_def connectAndSyncAccount_def
    by (simp add: session_grows_def)
qed

lemma grows_sync_config [simp]: "grows_under (sync_config env config)"
  by (simp add: sync_config_def)



lemma never_throws_try_catch:
  "(\<And>e. never_throws (h e)) \<Longrightarrow> never_throws (try_catch m h)"
  unfolding never_throws_def try_catch_def
proof (intro allI)
  fix w
  assume h: "\<And>e. \<forall>w. \<exists>a. fst (h e w) = Inr a"
  obtain r w1 where r: "m w = (r, w1)" by (cases "m w")
  show "\<exists>a. fst (case m w of (Inl e, w') \<Rightarrow> h e w' | (Inr a, w') \<Rightarrow> (Inr a, w')) = Inr a"
    using r h by (cases r) simp_all
qed

lemma never_throws_console [simp]:
  "never_throws (console_log s)" "never_throws (console_warn s)" "never_throws (console_error s)"
  by (simp_all add: never_throws_def console_log_def console_warn_def console_error_def)

lemma never_throws_returnE [simp]: "never_throws (returnE a)"
  by (simp add: never_throws_def returnE_def)

lemma never_throws_connectAndSyncAccount [simp]: "never_throws (connectAndSyncAccount env config)"
proof -
  have "never_throws (try_catch
            (bindE (imap_connect env (id_cfg config)) (\<lambda>_.
             bindE (console_log (imap_tag (id_cfg config) @ '' Connected successfully.'')) (\<lambda>_.
             bindE (initialSync env (id_cfg config)) (\<lambda>_.
             setupRealTimeIdle (id_cfg config)))))
            (\<lambda>error. console_error (imap_tag (id_cfg config) @ '' Connection or sync failed: ''
                        @ errorMsg error)))"
    by (intro never_throws_try_catch) simp
  then show ?thesis
    unfolding never_throws_def connectAndSyncAccount_def by simp
qed





lemma session_grows_es_subset:
  "session_grows w w' \<Longrightarrow> set (es_requests w) \<subseteq> set (es_requests w')"
  by (auto simp: session_grows_def)

lemma session_grows_dom_subset:
  "session_grows w w' \<Longrightarrow> dom (es_index w) \<subseteq> dom (es_index w')"
  by (simp add: session_grows_def)

lemma backfilled_mono:
  assumes "backfilled env acc f uids w" and "session_grows w w'"
  shows "backfilled env acc f uids w'"
  unfolding backfilled_def
proof (intro ballI allI impI)
  fix u m buf parsed
  assume mem: "u \<in> set uids" and hyp: "client_fetchOne env acc u = Inr (Some m) \<and> msg_source m = Some buf
        \<and> simpleParser env buf = Inr parsed"
  have "\<exists>d\<in>set (es_requests w).
           id_doc d = acc @ ''-'' @ string_of_nat (msg_uid m)
           \<and> account_id d = acc \<and> folder d = f
           \<and> (client_index env d = None \<longrightarrow> id_doc d \<in> dom (es_index w))"
    by (rule assms(1) [unfolded backfilled_def, rule_format, OF mem hyp])
  then obtain d where d: "d \<in> set (es_requests w)"
    "id_doc d = acc @ ''-'' @ string_of_nat (msg_uid m)" "account_id d = acc" "folder d = f"
    "client_index env d = None \<longrightarrow> id_doc d \<in> dom (es_index w)"
    by (elim bexE conjE)
  have d': "d \<in> set (es_requests w')"
    using d(1) session_grows_es_subset [OF assms(2)] by (rule subsetD [rotated])
  have stored: "client_index env d = None \<longrightarrow> id_doc d \<in> dom (es_index w')"
    using d(5) session_grows_dom_subset [OF assms(2)] by (simp add: subset_iff)
  show "\<exists>d\<in>set (es_requests w').
           id_doc d = acc @ ''-'' @ string_of_nat (msg_uid m)
           \<and> account_id d = acc \<and> folder d = f
           \<and> (client_index env d = None \<longrightarrow> id_doc d \<in> dom (es_index w'))"
    by (rule bexI [OF _ d']) (intro conjI d(2-4) stored)
qed

lemma for_uids_grows: "session_grows w (snd (for_uids env acc f uids w))"
  using grows_for_uids [of env acc f uids] by (simp add: grows_under_def)

subsection \<open>Fetching and the backfill\<close>

lemma fetch_and_process_throws:
  "client_fetchOne env acc u = Inl e \<Longrightarrow>
   fetch_and_process env acc f u w = (Inl e, fetched acc u w)"
  by (simp add: fetch_and_process_def bindE_def imap_fetchOne_def fetched_def)

lemma fetch_and_process_absent:
  "client_fetchOne env acc u = Inr None \<Longrightarrow>
   fetch_and_process env acc f u w = (Inr (), fetched acc u w)"
  by (simp add: fetch_and_process_def bindE_def imap_fetchOne_def returnE_def fetched_def)

lemma fetch_and_process_message:
  "client_fetchOne env acc u = Inr (Some m) \<Longrightarrow>
   fetch_and_process env acc f u w = processAndIndexEmail env m acc f (fetched acc u w)"
  by (simp add: fetch_and_process_def bindE_def imap_fetchOne_def fetched_def)

lemma fetch_and_process_ok:
  assumes "client_fetchOne env acc u = Inr m"
  shows "\<exists>w'. fetch_and_process env acc f u w = (Inr (), w')
           \<and> imap_calls w' = imap_calls w @ [FetchOne acc u]
           \<and> exists_handlers w' = exists_handlers w"
proof (cases m)
  case None
  then show ?thesis using assms
    by (simp add: fetch_and_process_absent fetched_def)
next
  case (Some msg)
  obtain w' where "processAndIndexEmail env msg acc f (fetched acc u w) = (Inr (), w')"
    "session_of w' = session_of (fetched acc u w)"
    using processAndIndexEmail_total by blast
  then show ?thesis using assms Some
    by (simp add: fetch_and_process_message fetched_def session_of_def)
qed

lemma for_uids_ok_all:
  assumes "\<forall>u\<in>set uids. \<exists>m. client_fetchOne env acc u = Inr m"
  shows "for_uids env acc f uids w =
           (Inr (), foldl (\<lambda>w u. snd (fetch_and_process env acc f u w)) w uids)
         \<and> imap_calls (snd (for_uids env acc f uids w)) = imap_calls w @ map (FetchOne acc) uids
         \<and> exists_handlers (snd (for_uids env acc f uids w)) = exists_handlers w"
  using assms
proof (induction uids arbitrary: w)
  case Nil
  then show ?case by (simp add: returnE_def)
next
  case (Cons u uids)
  obtain m where m: "client_fetchOne env acc u = Inr m"
    using Cons.prems by auto
  obtain w1 where w1: "fetch_and_process env acc f u w = (Inr (), w1)"
    "imap_calls w1 = imap_calls w @ [FetchOne acc u]" "exists_handlers w1 = exists_handlers w"
    using fetch_and_process_ok [OF m] by blast
  have rest: "\<forall>u\<in>set uids. \<exists>m. client_fetchOne env acc u = Inr m"
    using Cons.prems by simp
  have step: "for_uids env acc f (u # uids) w = for_uids env acc f uids w1"
    using w1(1) by (simp add: bindE_def)
  have fold: "foldl (\<lambda>w u. snd (fetch_and_process env acc f u w)) w (u # uids)
      = foldl (\<lambda>w u. snd (fetch_and_process env acc f u w)) w1 uids"
    using w1(1) by simp
  have ih: "for_uids env acc f uids w1 =
           (Inr (), foldl (\<lambda>w u. snd (fetch_and_process env acc f u w)) w1 uids)"
    "imap_calls (snd (for_uids env acc f uids w1)) = imap_calls w1 @ map (FetchOne acc) uids"
    "exists_handlers (snd (for_uids env acc f uids w1)) = exists_handlers w1"
    using Cons.IH [OF rest, of w1] by blast+
  show ?case
    unfolding step fold using ih w1(2,3) by simp
qed

lemma for_uids_ok:
  assumes "\<forall>u\<in>set uids. \<exists>m. client_fetchOne env acc u = Inr m"
  shows "for_uids env acc f uids w =
           (Inr (), foldl (\<lambda>w u. snd (fetch_and_process env acc f u w)) w uids)"
    and "imap_calls (snd (for_uids env acc f uids w)) = imap_calls w @ map (FetchOne acc) uids"
    and "exists_handlers (snd (for_uids env acc f uids w)) = exists_handlers w"
  using for_uids_ok_all [OF assms, of f w] by blast+




lemma fetch_and_process_indexes:
  assumes "client_fetchOne env acc u = Inr (Some m)" and "msg_source m = Some buf"
    and "simpleParser env buf = Inr parsed"
  shows "backfilled env acc f [u] (snd (fetch_and_process env acc f u w))"
proof -
  let ?w0 = "fetched acc u w"
  obtain c w' where run: "process_parsed env m acc f parsed ?w0 = (Inr (), w')"
    and req: "es_requests w' = es_requests ?w0
       @ [emailDocument_of m acc f parsed c (date_used env parsed ?w0)]"
    and idx: "es_index w' =
       (case client_index env (emailDocument_of m acc f parsed c (date_used env parsed ?w0)) of
          None \<Rightarrow> (es_index ?w0)(acc @ ''-'' @ string_of_nat (msg_uid m) \<mapsto>
                     emailDocument_of m acc f parsed c (date_used env parsed ?w0))
        | Some e \<Rightarrow> es_index ?w0)"
    using process_parsed_result [of env parsed m acc f] by blast
  let ?d = "emailDocument_of m acc f parsed c (date_used env parsed ?w0)"
  have w': "snd (fetch_and_process env acc f u w) = w'"
    using assms run by (simp add: fetch_and_process_message processAndIndexEmail_parsed)
  have d: "?d \<in> set (es_requests w')" "id_doc ?d = acc @ ''-'' @ string_of_nat (msg_uid m)"
    "account_id ?d = acc" "folder ?d = f"
    using req by (simp_all add: emailDocument_of_def)
  have stored: "client_index env ?d = None \<longrightarrow> id_doc ?d \<in> dom (es_index w')"
    using idx d(2) by simp
  show ?thesis
    unfolding backfilled_def w'
  proof (intro ballI allI impI)
    fix v m' buf' parsed'
    assume "v \<in> set [u]" and "client_fetchOne env acc v = Inr (Some m') \<and> msg_source m' = Some buf'
        \<and> simpleParser env buf' = Inr parsed'"
    then have m': "m' = m" using assms(1) by simp
    show "\<exists>d\<in>set (es_requests w').
           id_doc d = acc @ ''-'' @ string_of_nat (msg_uid m')
           \<and> account_id d = acc \<and> folder d = f
           \<and> (client_index env d = None \<longrightarrow> id_doc d \<in> dom (es_index w'))"
      unfolding m' by (rule bexI [OF _ d(1)]) (intro conjI d(2-4) stored)
  qed
qed

lemma backfilled_Cons:
  "backfilled env acc f [u] w \<Longrightarrow> backfilled env acc f uids w \<Longrightarrow> backfilled env acc f (u # uids) w"
  unfolding backfilled_def by simp

lemma backfilled_unparsed:
  assumes "\<forall>m buf parsed. \<not> (client_fetchOne env acc u = Inr (Some m) \<and> msg_source m = Some buf
        \<and> simpleParser env buf = Inr parsed)"
  shows "backfilled env acc f [u] w"
  unfolding backfilled_def
proof (intro ballI allI impI)
  fix v m buf parsed
  assume "v \<in> set [u]" and "client_fetchOne env acc v = Inr (Some m) \<and> msg_source m = Some buf
        \<and> simpleParser env buf = Inr parsed"
  then have False using assms by simp
  then show "\<exists>d\<in>set (es_requests w).
           id_doc d = acc @ ''-'' @ string_of_nat (msg_uid m)
           \<and> account_id d = acc \<and> folder d = f
           \<and> (client_index env d = None \<longrightarrow> id_doc d \<in> dom (es_index w))" ..
qed

lemma for_uids_backfilled:
  assumes "\<forall>u\<in>set uids. \<exists>m. client_fetchOne env acc u = Inr m"
  shows "backfilled env acc f uids (snd (for_uids env acc f uids w))"
  using assms
proof (induction uids arbitrary: w)
  case Nil
  then show ?case by (simp add: backfilled_def)
next
  case (Cons u uids)
  obtain m where m: "client_fetchOne env acc u = Inr m"
    using Cons.prems by auto
  obtain w1 where w1: "fetch_and_process env acc f u w = (Inr (), w1)"
    using fetch_and_process_ok [OF m] by blast
  have rest: "\<forall>u\<in>set uids. \<exists>m. client_fetchOne env acc u = Inr m"
    using Cons.prems by simp
  have step: "for_uids env acc f (u # uids) w = for_uids env acc f uids w1"
    using w1 by (simp add: bindE_def)
  have tail: "backfilled env acc f uids (snd (for_uids env acc f uids w1))"
    by (rule Cons.IH [OF rest])
  have "backfilled env acc f [u] w1"
  proof (cases "\<exists>msg buf parsed. client_fetchOne env acc u = Inr (Some msg)
      \<and> msg_source msg = Some buf \<and> simpleParser env buf = Inr parsed")
    case True
    then obtain msg buf parsed where "client_fetchOne env acc u = Inr (Some msg)"
      "msg_source msg = Some buf" "simpleParser env buf = Inr parsed"
      by blast
    from fetch_and_process_indexes [OF this, of f w] show ?thesis
      using w1 by simp
  next
    case False
    then show ?thesis
      by (intro backfilled_unparsed) blast
  qed
  then have head: "backfilled env acc f [u] (snd (for_uids env acc f uids w1))"
    using backfilled_mono for_uids_grows by blast
  show ?case
    unfolding step by (rule backfilled_Cons [OF head tail])
qed


lemma sinceDate_day:
  "sinceDate env now * msPerDay \<le> date30DaysAgo env now
   \<and> date30DaysAgo env now < (sinceDate env now + 1) * msPerDay"
proof -
  define t where "t = date30DaysAgo env now"
  define q where "q = t div msPerDay"
  define r where "r = t mod msPerDay"
  have pos: "0 < msPerDay" by (simp add: msPerDay_def)
  have t: "t = q * msPerDay + r" by (simp add: q_def r_def)
  have r: "0 \<le> r" "r < msPerDay"
    using pos by (simp_all add: r_def)
  have "q * msPerDay \<le> t \<and> t < (q + 1) * msPerDay"
    using t r by (simp add: algebra_simps)
  then show ?thesis
    by (simp add: sinceDate_def t_def q_def)
qed

lemma date30DaysAgo_fixed_offset:
  "LocalTZA env (LocalTime env now - 30 * msPerDay) False = LocalTZA env now True
   \<Longrightarrow> date30DaysAgo env now = now - 30 * msPerDay"
  by (simp add: date30DaysAgo_def UTC_of_def LocalTime_def)

lemma bindE_try_finally:
  "m w = (Inr a, w') \<Longrightarrow> bindE (try_finally m fin) k w = k a (fin w')"
  by (simp add: bindE_def try_finally_def)


lemma initialSync_ok:
  assumes lock: "client_getMailboxLock env acc ''INBOX'' = None"
    and search: "client_search env acc (Since (sinceDate env (clock env (clock_reads w)))) = Inr r"
    and fetch: "\<forall>u\<in>set (uids_of r). \<exists>m. client_fetchOne env acc u = Inr m"
  shows "\<exists>w'. initialSync env acc w = (Inr (), w')
           \<and> imap_calls w' = imap_calls w
                @ [GetMailboxLock acc ''INBOX'', Search acc (Since (sinceDate env (clock env (clock_reads w))))]
                @ map (FetchOne acc) (uids_of r) @ [Release acc ''INBOX'']
           \<and> exists_handlers w' = exists_handlers w
           \<and> backfilled env acc ''INBOX'' (uids_of r) w'"
proof -
  let ?now = "clock env (clock_reads w)"
  define w1 where "w1 = w\<lparr>console := console w @ [Log (imap_tag acc @ '' Starting 30-day historical sync...'')]\<rparr>"
  define w2 where "w2 = w1\<lparr>clock_reads := Suc (clock_reads w1)\<rparr>"
  define w3 where "w3 = w2\<lparr>imap_calls := imap_calls w2 @ [GetMailboxLock acc ''INBOX'']\<rparr>"
  define w4 where "w4 = w3\<lparr>imap_calls := imap_calls w3 @ [Search acc (Since (sinceDate env ?now))]\<rparr>"
  define w5 where "w5 = w4\<lparr>console := console w4 @ [Log (imap_tag acc @ '' Found ''
                        @ string_of_nat (length (uids_of r)) @ '' emails in the last 30 days.'')]\<rparr>"
  define w6 where "w6 = snd (for_uids env acc ''INBOX'' (uids_of r) w5)"
  define w7 where "w7 = lock_release acc ''INBOX'' w6"
  define w8 where "w8 = w7\<lparr>console := console w7 @ [Log (imap_tag acc @ '' Historical sync complete.'')]\<rparr>"
  have b1: "bindE (console_log (imap_tag acc @ '' Starting 30-day historical sync...'')) k w = k () w1"
    for k :: "unit \<Rightarrow> unit prog"
    by (simp add: bindE_def console_log_def w1_def)
  have b2: "bindE (new_Date env) k w1 = k ?now w2" for k :: "Date \<Rightarrow> unit prog"
    by (simp add: bindE_def new_Date_def w2_def w1_def)
  have b3: "bindE (imap_getMailboxLock env acc ''INBOX'') k w2 = k () w3" for k :: "unit \<Rightarrow> unit prog"
    using lock by (simp add: bindE_def imap_getMailboxLock_def w3_def)
  have loop: "for_uids env acc ''INBOX'' (uids_of r) w5 = (Inr (), w6)"
    "imap_calls w6 = imap_calls w5 @ map (FetchOne acc) (uids_of r)"
    "exists_handlers w6 = exists_handlers w5"
    unfolding w6_def
    using for_uids_ok [OF fetch, of "''INBOX''" w5] by simp_all
  have i1: "bindE (imap_search env acc (Since (sinceDate env ?now))) k w3 = k r w4"
    for k :: "nat list option \<Rightarrow> unit prog"
    using search by (simp add: bindE_def imap_search_def w4_def)
  have i2: "bindE (console_log (imap_tag acc @ '' Found ''
                        @ string_of_nat (length (uids_of r))
                        @ '' emails in the last 30 days.'')) k w4 = k () w5"
    for k :: "unit \<Rightarrow> unit prog"
    by (simp add: bindE_def console_log_def w5_def)
  have inner: "bindE (imap_search env acc (Since (sinceDate env ?now))) (\<lambda>searchResult.
               bindE (console_log (imap_tag acc @ '' Found ''
                        @ string_of_nat (length (uids_of searchResult))
                        @ '' emails in the last 30 days.'')) (\<lambda>_.
               for_uids env acc ''INBOX'' (uids_of searchResult))) w3 = (Inr (), w6)"
    by (simp only: i1 i2 loop(1))
  have b4: "bindE (try_finally
              (bindE (imap_search env acc (Since (sinceDate env ?now))) (\<lambda>searchResult.
               bindE (console_log (imap_tag acc @ '' Found ''
                        @ string_of_nat (length (uids_of searchResult))
                        @ '' emails in the last 30 days.'')) (\<lambda>_.
               for_uids env acc ''INBOX'' (uids_of searchResult))))
              (lock_release acc ''INBOX'')) k w3 = k () w7" for k :: "unit \<Rightarrow> unit prog"
    unfolding w7_def by (rule bindE_try_finally, rule inner)
  have run: "initialSync env acc w = (Inr (), w8)"
    unfolding initialSync_def
    by (simp only: b1 b2 b3 b4) (simp add: console_log_def w8_def)
  have "imap_calls w8 = imap_calls w
                @ [GetMailboxLock acc ''INBOX'', Search acc (Since (sinceDate env ?now))]
                @ map (FetchOne acc) (uids_of r) @ [Release acc ''INBOX'']"
    using loop(2)
    by (simp add: w8_def w7_def lock_release_def w5_def w4_def w3_def w2_def w1_def)
  moreover have "exists_handlers w8 = exists_handlers w"
    using loop(3)
    by (simp add: w8_def w7_def lock_release_def w5_def w4_def w3_def w2_def w1_def)
  moreover have "backfilled env acc ''INBOX'' (uids_of r) w8"
  proof -
    have "backfilled env acc ''INBOX'' (uids_of r) w6"
      unfolding w6_def by (rule for_uids_backfilled [OF fetch])
    moreover have "es_requests w8 = es_requests w6" "es_index w8 = es_index w6"
      by (simp_all add: w8_def w7_def lock_release_def)
    ultimately show ?thesis by (simp add: backfilled_def)
  qed
  ultimately show ?thesis
    by (intro exI [of _ w8] conjI run)
qed



lemma try_finally_result: "m w = (r, w') \<Longrightarrow> try_finally m fin w = (r, fin w')"
  by (simp add: try_finally_def)

lemma bindE_console_log:
  "bindE (console_log s) k w = k () (w\<lparr>console := console w @ [Log s]\<rparr>)"
  by (simp add: bindE_def console_log_def)

subsection \<open>Accounts\<close>









subsection \<open>Evaluating the test doubles\<close>

lemmas run_defs = processAndIndexEmail_def process_parsed_def categorizeEmail_def
  classify_rawJson_def validate_category_def invalid_category_def empty_response_def
  valid_category_def get_category_def first_content_def openai_create_def
  indexDocument_def es_client_index_def triggerInterestedAutomation_def enter_automation_def
  sendSlackNotification_def triggerExternalWebhook_def http_post_def
  date_or_now_def new_Date_def emailDocument_of_def toList_def from_address_def
  prog_defs truthy_def or_else_def or_opt_def Let_def VALID_CATEGORIES_def

lemma string_of_nat_digit: "n < 10 \<Longrightarrow> string_of_nat n = [digit n]"
  by (simp add: string_of_nat.simps)

lemma json_answer_nonempty: "json_answer l \<noteq> []"
  by (simp add: json_answer_def)

lemma digit_7: "digit 7 = CHR ''7''"
  by code_simp

lemma test_parse_Interested:
  "test_JSON_parse (json_answer ''Interested'') = Inr (JObject [(''category'', JString ''Interested'')])"
  by (simp add: test_JSON_parse_def)

lemma digit_1: "digit (Suc 0) = CHR ''1''"
  by code_simp

lemma digit_2: "digit 2 = CHR ''2''"
  by code_simp

lemmas sync_defs = initialSync_def fetch_and_process_def imap_fetchOne_def imap_search_def
  imap_getMailboxLock_def lock_release_def uids_of_def sinceDate_def date30DaysAgo_def
  UTC_of_def LocalTime_def msPerDay_def

section \<open>Classification\<close>

text \<open>
  C2. Classification always returns one of the six labels and never throws. It returns
  \<^verbatim>\<open>Uncategorized\<close> when there is no API key (then without touching the world), when the
  oracle call throws, when the response has no choice or an empty content, when the content
  is not JSON, and when the parsed answer carries no label of the closed set.
\<close>

theorem categorizeEmail_fallback:
  "\<exists>c w'. categorizeEmail env subj body w = (Inr c, w') \<and> c \<in> set VALID_CATEGORIES
     \<and> (\<not> truthy (OPENAI_API_KEY env) \<longrightarrow> c = ''Uncategorized'' \<and> w' = w)
     \<and> ((\<exists>e. chat_completions_create env systemPrompt (userPrompt subj body) = Inl e)
          \<longrightarrow> c = ''Uncategorized'')
     \<and> (chat_completions_create env systemPrompt (userPrompt subj body) = Inr []
          \<longrightarrow> c = ''Uncategorized'')
     \<and> ((\<exists>rawJson rest. chat_completions_create env systemPrompt (userPrompt subj body)
              = Inr (rawJson # rest) \<and> \<not> truthy rawJson)
          \<longrightarrow> c = ''Uncategorized'')
     \<and> ((\<exists>raw rest e. chat_completions_create env systemPrompt (userPrompt subj body)
              = Inr (Some raw # rest) \<and> JSON_parse env raw = Inl e)
          \<longrightarrow> c = ''Uncategorized'')
     \<and> ((\<exists>raw rest result category.
            chat_completions_create env systemPrompt (userPrompt subj body) = Inr (Some raw # rest)
            \<and> JSON_parse env raw = Inr result \<and> get_category result = Inr category
            \<and> (\<forall>l. category = Some (JString l) \<longrightarrow> l \<notin> set VALID_CATEGORIES))
          \<longrightarrow> c = ''Uncategorized'')"
proof -
  obtain c where c: "c \<in> set VALID_CATEGORIES"
    "\<forall>w. \<exists>w'. categorizeEmail env subj body w = (Inr c, w') \<and> ai_frame w w'"
    using categorizeEmail_result [of env subj body] by blast
  then obtain w' where w': "categorizeEmail env subj body w = (Inr c, w')"
    by blast
  let ?create = "chat_completions_create env systemPrompt (userPrompt subj body)"
  have disabled: "c = ''Uncategorized'' \<and> w' = w" if "\<not> truthy (OPENAI_API_KEY env)"
    using that w' by (simp add: categorizeEmail_def returnE_def)
  have throws: "c = ''Uncategorized''" if "?create = Inl e" for e
  proof (cases "truthy (OPENAI_API_KEY env)")
    case True
    then show ?thesis using that w'
      by (simp add: categorizeEmail_def prog_defs openai_create_def)
  qed (use disabled in simp)
  have no_choice: "c = ''Uncategorized''" if "?create = Inr []"
  proof (cases "truthy (OPENAI_API_KEY env)")
    case True
    then show ?thesis using that w'
      by (simp add: categorizeEmail_def prog_defs openai_create_def first_content_def)
  qed (use disabled in simp)
  have empty: "c = ''Uncategorized''" if "?create = Inr (rawJson # rest)" "\<not> truthy rawJson"
    for rawJson rest
  proof (cases "truthy (OPENAI_API_KEY env)")
    case True
    then show ?thesis using that w'
      by (simp add: categorizeEmail_def prog_defs openai_create_def first_content_def
          classify_rawJson_def empty_response_def)
  qed (use disabled in simp)
  have malformed: "c = ''Uncategorized''"
    if "?create = Inr (Some raw # rest)" "JSON_parse env raw = Inl e" for raw rest e
  proof (cases "truthy (OPENAI_API_KEY env)")
    case True
    then show ?thesis using that w'
      by (cases "raw = []")
        (simp_all add: categorizeEmail_def prog_defs openai_create_def first_content_def
          classify_rawJson_def empty_response_def truthy_def)
  qed (use disabled in simp)
  have outside: "c = ''Uncategorized''"
    if "?create = Inr (Some raw # rest)" "JSON_parse env raw = Inr result"
      "get_category result = Inr category"
      "\<forall>l. category = Some (JString l) \<longrightarrow> l \<notin> set VALID_CATEGORIES"
    for raw rest result category
  proof (cases "truthy (OPENAI_API_KEY env)")
    case True
    have nv: "\<not> valid_category category"
      using that(4) by (auto simp: valid_category_def split: option.splits json.splits)
    show ?thesis
    proof (cases "truthy (Some raw)")
      case False
      then show ?thesis using empty that(1) by blast
    next
      case t: True
      show ?thesis using True t that(1-3) nv w'
        by (simp add: categorizeEmail_def prog_defs openai_create_def first_content_def
            classify_rawJson_def validate_category_def invalid_category_def)
    qed
  qed (use disabled in simp)
  show ?thesis
  proof (intro exI [of _ c] exI [of _ w'] conjI impI)
    show "categorizeEmail env subj body w = (Inr c, w')" by (rule w')
    show "c \<in> set VALID_CATEGORIES" by (rule c(1))
  qed (use disabled throws no_choice empty malformed outside in blast)+
qed

theorem categorizeEmail_fallback_witness:
  "fst (categorizeEmail (test_env\<lparr>OPENAI_API_KEY := None\<rparr>) ''Hi'' ''Body'' empty_world)
     = Inr ''Uncategorized''
   \<and> fst (categorizeEmail (test_env\<lparr>chat_completions_create := (\<lambda>sys usr. Inl (Error ''503''))\<rparr>)
          ''Hi'' ''Body'' empty_world) = Inr ''Uncategorized''
   \<and> fst (categorizeEmail (test_env\<lparr>chat_completions_create := (\<lambda>sys usr. Inr [])\<rparr>)
          ''Hi'' ''Body'' empty_world) = Inr ''Uncategorized''
   \<and> fst (categorizeEmail (test_env\<lparr>chat_completions_create := (\<lambda>sys usr. Inr [None])\<rparr>)
          ''Hi'' ''Body'' empty_world) = Inr ''Uncategorized''
   \<and> fst (categorizeEmail (test_env\<lparr>chat_completions_create := (\<lambda>sys usr. Inr [Some ''oops''])\<rparr>)
          ''Hi'' ''Body'' empty_world) = Inr ''Uncategorized''
   \<and> fst (categorizeEmail
            (test_env\<lparr>chat_completions_create := (\<lambda>sys usr. Inr [Some (json_answer ''Maybe'')])\<rparr>)
          ''Hi'' ''Body'' empty_world) = Inr ''Uncategorized''"
proof -
  have maybe: "\<forall>l. Some (JString ''Maybe'') = Some (JString l) \<longrightarrow> l \<notin> set VALID_CATEGORIES"
    by (simp add: VALID_CATEGORIES_def)
  have parse_maybe: "test_JSON_parse (json_answer ''Maybe'') = Inr (JObject [(''category'', JString ''Maybe'')])"
    by (simp add: test_JSON_parse_def json_answer_def)
  have parse_oops: "test_JSON_parse ''oops'' = Inl (Error ''Unexpected token'')"
    by (simp add: test_JSON_parse_def json_answer_def)
  show ?thesis
    using categorizeEmail_fallback [of "test_env\<lparr>OPENAI_API_KEY := None\<rparr>" "''Hi''" "''Body''" empty_world]
      categorizeEmail_fallback [of "test_env\<lparr>chat_completions_create := (\<lambda>sys usr. Inl (Error ''503''))\<rparr>"
        "''Hi''" "''Body''" empty_world]
      categorizeEmail_fallback [of "test_env\<lparr>chat_completions_create := (\<lambda>sys usr. Inr [])\<rparr>"
        "''Hi''" "''Body''" empty_world]
      categorizeEmail_fallback [of "test_env\<lparr>chat_completions_create := (\<lambda>sys usr. Inr [None])\<rparr>"
        "''Hi''" "''Body''" empty_world]
      categorizeEmail_fallback [of "test_env\<lparr>chat_completions_create := (\<lambda>sys usr. Inr [Some ''oops''])\<rparr>"
        "''Hi''" "''Body''" empty_world]
      categorizeEmail_fallback [of "test_env\<lparr>chat_completions_create := (\<lambda>sys usr. Inr [Some (json_answer ''Maybe'')])\<rparr>"
        "''Hi''" "''Body''" empty_world]
      maybe parse_maybe parse_oops
    by (auto simp: test_env_def truthy_def get_category_def)
qed

section \<open>Message processing\<close>

text \<open>
  C5. A message whose source is absent, or whose source the parser rejects, is skipped:
  the call returns normally, sends nothing to Elasticsearch, to OpenAI or to the
  automation service, leaves the index as it was, and prints exactly one console line.
\<close>

theorem processAndIndexEmail_skips_unparseable:
  assumes "msg_source msg = None \<or> (\<exists>buf e. msg_source msg = Some buf \<and> simpleParser env buf = Inl e)"
  shows "\<exists>w'. processAndIndexEmail env msg acc f w = (Inr (), w')
           \<and> es_requests w' = es_requests w \<and> es_index w' = es_index w
           \<and> openai_requests w' = openai_requests w
           \<and> automation_calls w' = automation_calls w \<and> http_posts w' = http_posts w
           \<and> (\<exists>line. console w' = console w @ [line])"
  using assms
  by (auto simp: processAndIndexEmail_no_source processAndIndexEmail_parse_error)

theorem processAndIndexEmail_skips_unparseable_witness:
  "(\<exists>w'. processAndIndexEmail test_env \<lparr>msg_uid = 7, msg_source = None, msg_flags = None\<rparr>
            ''acc'' ''INBOX'' empty_world = (Inr (), w')
          \<and> es_requests w' = [] \<and> openai_requests w' = [] \<and> automation_calls w' = [])
   \<and> (\<exists>w'. processAndIndexEmail test_env \<lparr>msg_uid = 7, msg_source = Some ''garbage'', msg_flags = None\<rparr>
            ''acc'' ''INBOX'' empty_world = (Inr (), w')
          \<and> es_requests w' = [] \<and> openai_requests w' = [] \<and> automation_calls w' = [])"
proof -
  let ?absent = "\<lparr>msg_uid = 7, msg_source = None, msg_flags = None\<rparr>"
  let ?garbage = "\<lparr>msg_uid = 7, msg_source = Some ''garbage'', msg_flags = None\<rparr>"
  have h1: "msg_source ?absent = None
      \<or> (\<exists>buf e. msg_source ?absent = Some buf \<and> simpleParser test_env buf = Inl e)"
    by simp
  have h2: "msg_source ?garbage = None
      \<or> (\<exists>buf e. msg_source ?garbage = Some buf \<and> simpleParser test_env buf = Inl e)"
    by (simp add: test_env_def)
  show ?thesis
    using processAndIndexEmail_skips_unparseable [OF h1, of "''acc''" "''INBOX''" empty_world]
      processAndIndexEmail_skips_unparseable [OF h2, of "''acc''" "''INBOX''" empty_world]
    by (auto simp: empty_world_def)
qed

text \<open>
  C4. For a message that is parsed, one document \<open>d\<close> is sent to Elasticsearch, and
  \<^verbatim>\<open>triggerInterestedAutomation\<close> is called (once, with \<open>d\<close>) exactly when the category of
  \<open>d\<close> is \<^verbatim>\<open>Interested\<close>; for every other label there is no call.
\<close>

theorem automation_iff_Interested:
  assumes "msg_source msg = Some buf" and "simpleParser env buf = Inr parsed"
  shows "\<exists>d w'. processAndIndexEmail env msg acc f w = (Inr (), w')
           \<and> es_requests w' = es_requests w @ [d]
           \<and> ai_category d \<in> set VALID_CATEGORIES
           \<and> automation_calls w' =
                automation_calls w @ (if ai_category d = ''Interested'' then [d] else [])"
proof -
  obtain c where c: "c \<in> set VALID_CATEGORIES"
    and run: "\<forall>w. \<exists>w'. process_parsed env msg acc f parsed w = (Inr (), w')
           \<and> es_requests w' = es_requests w @ [emailDocument_of msg acc f parsed c (date_used env parsed w)]
           \<and> automation_calls w' = automation_calls w @
                (if c = ''Interested''
                 then [emailDocument_of msg acc f parsed c (date_used env parsed w)] else [])"
    using process_parsed_result [of env parsed msg acc f] by blast
  let ?d = "emailDocument_of msg acc f parsed c (date_used env parsed w)"
  have cat: "ai_category ?d = c"
    by (simp add: emailDocument_of_def)
  obtain w' where "process_parsed env msg acc f parsed w = (Inr (), w')"
    "es_requests w' = es_requests w @ [?d]"
    "automation_calls w' = automation_calls w @ (if c = ''Interested'' then [?d] else [])"
    using run by blast
  then show ?thesis
    using assms c cat
    by (intro exI [of _ ?d] exI [of _ w']) (simp add: processAndIndexEmail_parsed)
qed

theorem automation_iff_Interested_witness:
  "\<exists>d w'. processAndIndexEmail test_env (test_msg 7) ''acc'' ''INBOX'' empty_world = (Inr (), w')
      \<and> es_requests w' = [d] \<and> ai_category d \<in> set VALID_CATEGORIES
      \<and> automation_calls w' = (if ai_category d = ''Interested'' then [d] else [])"
proof -
  have h1: "msg_source (test_msg 7) = Some ''raw''"
    by (simp add: test_msg_def)
  have h2: "simpleParser test_env ''raw'' = Inr test_parsed"
    by (simp add: test_env_def)
  show ?thesis
    using automation_iff_Interested [OF h1 h2, of "''acc''" "''INBOX''" empty_world]
    by (simp add: empty_world_def)
qed

text \<open>
  C3, as stated, fails: with an index request that throws and an oracle answering
  \<^verbatim>\<open>Interested\<close>, nothing is stored and yet the automation service is called for the
  message.
\<close>

theorem notification_despite_index_failure:
  "fst (processAndIndexEmail (test_env\<lparr>client_index := (\<lambda>d. Some (Error ''index unavailable''))\<rparr>)
          (test_msg 7) ''acc'' ''INBOX'' empty_world) = Inr ()
   \<and> es_index (snd (processAndIndexEmail
          (test_env\<lparr>client_index := (\<lambda>d. Some (Error ''index unavailable''))\<rparr>)
          (test_msg 7) ''acc'' ''INBOX'' empty_world)) ''acc-7'' = None
   \<and> map ai_category (automation_calls (snd (processAndIndexEmail
          (test_env\<lparr>client_index := (\<lambda>d. Some (Error ''index unavailable''))\<rparr>)
          (test_msg 7) ''acc'' ''INBOX'' empty_world))) = [''Interested'']
   \<and> map id_doc (automation_calls (snd (processAndIndexEmail
          (test_env\<lparr>client_index := (\<lambda>d. Some (Error ''index unavailable''))\<rparr>)
          (test_msg 7) ''acc'' ''INBOX'' empty_world))) = [''acc-7'']"
  by (simp add: run_defs test_env_def test_msg_def test_parsed_def empty_world_def
      test_parse_Interested string_of_nat_digit digit_7 json_answer_nonempty)

text \<open>
  C3, amended. \<^verbatim>\<open>indexDocument\<close> catches the failure of the index request itself: the
  failure is printed, nothing is stored, no exception leaves the processing call, and
  the automation service is still called exactly when the category is \<^verbatim>\<open>Interested\<close>.
\<close>

theorem index_failure_is_swallowed:
  assumes "msg_source msg = Some buf" and "simpleParser env buf = Inr parsed"
  shows "\<exists>d w'. processAndIndexEmail env msg acc f w = (Inr (), w')
           \<and> es_requests w' = es_requests w @ [d]
           \<and> (\<forall>e. client_index env d = Some e \<longrightarrow>
                 es_index w' = es_index w
                 \<and> failed_to_index d e \<in> set (console w')
                 \<and> automation_calls w' =
                      automation_calls w @ (if ai_category d = ''Interested'' then [d] else []))"
proof -
  obtain c where run: "\<forall>w. \<exists>w'. process_parsed env msg acc f parsed w = (Inr (), w')
           \<and> es_requests w' = es_requests w @ [emailDocument_of msg acc f parsed c (date_used env parsed w)]
           \<and> es_index w' =
               (case client_index env (emailDocument_of msg acc f parsed c (date_used env parsed w)) of
                  None \<Rightarrow> (es_index w)(acc @ ''-'' @ string_of_nat (msg_uid msg) \<mapsto>
                             emailDocument_of msg acc f parsed c (date_used env parsed w))
                | Some e \<Rightarrow> es_index w)
           \<and> automation_calls w' = automation_calls w @
                (if c = ''Interested''
                 then [emailDocument_of msg acc f parsed c (date_used env parsed w)] else [])
           \<and> (\<forall>e. client_index env (emailDocument_of msg acc f parsed c (date_used env parsed w)) = Some e
                 \<longrightarrow> failed_to_index (emailDocument_of msg acc f parsed c (date_used env parsed w)) e
                       \<in> set (console w'))"
    using process_parsed_result [of env parsed msg acc f] by blast
  let ?d = "emailDocument_of msg acc f parsed c (date_used env parsed w)"
  have cat: "ai_category ?d = c"
    by (simp add: emailDocument_of_def)
  obtain w' where w': "process_parsed env msg acc f parsed w = (Inr (), w')"
    "es_requests w' = es_requests w @ [?d]"
    "es_index w' = (case client_index env ?d of
                  None \<Rightarrow> (es_index w)(acc @ ''-'' @ string_of_nat (msg_uid msg) \<mapsto> ?d)
                | Some e \<Rightarrow> es_index w)"
    "automation_calls w' = automation_calls w @ (if c = ''Interested'' then [?d] else [])"
    "\<forall>e. client_index env ?d = Some e \<longrightarrow> failed_to_index ?d e \<in> set (console w')"
    using run by blast
  show ?thesis
  proof (intro exI [of _ ?d] exI [of _ w'] conjI allI impI)
    show "processAndIndexEmail env msg acc f w = (Inr (), w')"
      using assms w'(1) by (simp add: processAndIndexEmail_parsed)
    show "es_requests w' = es_requests w @ [?d]" by (rule w'(2))
  next
    fix e assume "client_index env ?d = Some e"
    then show "es_index w' = es_index w" "failed_to_index ?d e \<in> set (console w')"
      using w'(3,5) by simp_all
  next
    show "automation_calls w' = automation_calls w @ (if ai_category ?d = ''Interested'' then [?d] else [])"
      using w'(4) cat by simp
  qed
qed

theorem index_failure_is_swallowed_witness:
  "\<exists>d w'. processAndIndexEmail (test_env\<lparr>client_index := (\<lambda>d. Some (Error ''index unavailable''))\<rparr>)
             (test_msg 7) ''acc'' ''INBOX'' empty_world = (Inr (), w')
      \<and> es_requests w' = [d] \<and> es_index w' = Map.empty
      \<and> failed_to_index d (Error ''index unavailable'') \<in> set (console w')
      \<and> automation_calls w' = (if ai_category d = ''Interested'' then [d] else [])"
proof -
  let ?env = "test_env\<lparr>client_index := (\<lambda>d. Some (Error ''index unavailable''))\<rparr>"
  have h1: "msg_source (test_msg 7) = Some ''raw''"
    by (simp add: test_msg_def)
  have h2: "simpleParser ?env ''raw'' = Inr test_parsed"
    by (simp add: test_env_def)
  have h3: "client_index ?env d = Some (Error ''index unavailable'')" for d
    by simp
  show ?thesis
    using index_failure_is_swallowed [OF h1 h2, of "''acc''" "''INBOX''" empty_world] h3
    by (auto simp: empty_world_def)
qed

text \<open>
  C10. A message that parses is answered with exactly one index request, and the document
  of that request has every field filled. Subject, message id and HTML body take the
  parsed value when it is present and non-empty, and otherwise \<^verbatim>\<open>(No Subject)\<close>,
  \<^verbatim>\<open>no-id-{uid}\<close>, and the HTML rendering of the text or the empty string. The text body
  is the parsed text or the empty string. The sender is the address of the first entry of
  the From header, and \<^verbatim>\<open>unknown@example.com\<close> when the header is absent, has no entry,
  or its first entry has no address. The recipients are the non-empty addresses of all
  entries of the To header joined by a comma and a space, and \<^verbatim>\<open>unknown@example.com\<close>
  when the header is absent or holds no such address. The date is the parsed date or the
  clock reading. The flags are those of the fetched message or the empty list, and
  \<^verbatim>\<open>read\<close> holds exactly when the \<^verbatim>\<open>Seen\<close> flag is among them. No string that has a non-empty
  fallback is empty.
\<close>

theorem emailDocument_fallbacks:
  assumes "msg_source msg = Some buf" and "simpleParser env buf = Inr parsed"
  shows "\<exists>d w'. processAndIndexEmail env msg acc f w = (Inr (), w')
     \<and> es_requests w' = es_requests w @ [d]
     \<and> id_doc d = acc @ ''-'' @ string_of_nat (msg_uid msg)
     \<and> account_id d = acc \<and> folder d = f
     \<and> ai_category d \<in> set VALID_CATEGORIES
     \<and> (\<forall>s. parsed_subject parsed = Some s \<and> s \<noteq> [] \<longrightarrow> subject d = s)
     \<and> (parsed_subject parsed = None \<or> parsed_subject parsed = Some []
           \<longrightarrow> subject d = ''(No Subject)'')
     \<and> (\<forall>s. parsed_messageId parsed = Some s \<and> s \<noteq> [] \<longrightarrow> message_id d = s)
     \<and> (parsed_messageId parsed = None \<or> parsed_messageId parsed = Some []
           \<longrightarrow> message_id d = ''no-id-'' @ string_of_nat (msg_uid msg))
     \<and> (\<forall>s. parsed_text parsed = Some s \<longrightarrow> body_text d = s)
     \<and> (parsed_text parsed = None \<longrightarrow> body_text d = [])
     \<and> (\<forall>s. parsed_html parsed = Some s \<and> s \<noteq> [] \<longrightarrow> body_html d = s)
     \<and> (parsed_html parsed = None \<or> parsed_html parsed = Some [] \<longrightarrow>
           (\<forall>s. parsed_textAsHtml parsed = Some s \<longrightarrow> body_html d = s)
           \<and> (parsed_textAsHtml parsed = None \<longrightarrow> body_html d = []))
     \<and> (\<forall>fr a as s. parsed_from parsed = Some fr \<and> addr_value fr = Some (a # as)
           \<and> address a = Some s \<and> s \<noteq> [] \<longrightarrow> from_doc d = s)
     \<and> (parsed_from parsed = None
         \<or> (\<exists>fr. parsed_from parsed = Some fr
               \<and> (addr_value fr = None \<or> addr_value fr = Some []
                   \<or> (\<exists>a as. addr_value fr = Some (a # as)
                         \<and> (address a = None \<or> address a = Some []))))
           \<longrightarrow> from_doc d = ''unknown@example.com'')
     \<and> (parsed_to parsed = None \<longrightarrow> to_doc d = ''unknown@example.com'')
     \<and> (\<forall>t. parsed_to parsed = Some t \<and> usable_addresses t = []
           \<longrightarrow> to_doc d = ''unknown@example.com'')
     \<and> (\<forall>t. parsed_to parsed = Some t \<and> usable_addresses t \<noteq> []
           \<longrightarrow> to_doc d = join '', '' (usable_addresses t))
     \<and> subject d \<noteq> [] \<and> message_id d \<noteq> [] \<and> from_doc d \<noteq> [] \<and> to_doc d \<noteq> []
     \<and> (\<forall>t. parsed_date parsed = Some t \<longrightarrow> date d = t)
     \<and> (parsed_date parsed = None \<longrightarrow> date d = clock env (clock_reads w))
     \<and> (msg_flags msg = None \<longrightarrow> flags d = [] \<and> \<not> read d)
     \<and> (\<forall>fs. msg_flags msg = Some fs \<longrightarrow> flags d = fs \<and> (read d \<longleftrightarrow> Seen \<in> set fs))"
proof -
  obtain c where c: "c \<in> set VALID_CATEGORIES"
    and run: "\<forall>w. \<exists>w'. process_parsed env msg acc f parsed w = (Inr (), w')
           \<and> es_requests w' = es_requests w @ [emailDocument_of msg acc f parsed c (date_used env parsed w)]"
    using process_parsed_result [of env parsed msg acc f] by blast
  let ?d = "emailDocument_of msg acc f parsed c (date_used env parsed w)"
  obtain w' where w': "process_parsed env msg acc f parsed w = (Inr (), w')"
    "es_requests w' = es_requests w @ [?d]"
    using run by blast
  have to: "to_doc ?d = toList parsed"
    by (simp add: emailDocument_of_def)
  have to_nonempty: "to_doc ?d \<noteq> []"
  proof (cases "parsed_to parsed")
    case None
    then show ?thesis by (simp add: to toList_usable)
  next
    case (Some t)
    show ?thesis
    proof (cases "usable_addresses t = []")
      case True
      then show ?thesis using Some by (simp add: to toList_usable)
    next
      case False
      then have "join '', '' (usable_addresses t) \<noteq> []"
        using join_nonempty usable_addresses_nonempty by blast
      then show ?thesis using Some False by (simp add: to toList_usable)
    qed
  qed
  show ?thesis
  proof (intro exI [of _ ?d] exI [of _ w'] conjI allI impI)
    show "processAndIndexEmail env msg acc f w = (Inr (), w')"
      using assms w'(1) by (simp add: processAndIndexEmail_parsed)
    show "es_requests w' = es_requests w @ [?d]" by (rule w'(2))
    show "ai_category ?d \<in> set VALID_CATEGORIES"
      using c by (simp add: emailDocument_of_def)
    show "to_doc ?d \<noteq> []" by (rule to_nonempty)
    show "parsed_to parsed = None \<Longrightarrow> to_doc ?d = ''unknown@example.com''"
      by (simp add: to toList_usable)
    show "parsed_to parsed = Some t \<and> usable_addresses t = []
        \<Longrightarrow> to_doc ?d = ''unknown@example.com''" for t
      by (simp add: to toList_usable)
    show "parsed_to parsed = Some t \<and> usable_addresses t \<noteq> []
        \<Longrightarrow> to_doc ?d = join '', '' (usable_addresses t)" for t
      by (simp add: to toList_usable)
  qed (auto simp: emailDocument_of_def or_else_def or_opt_def truthy_def
        from_address_def date_used_def split: option.splits list.splits)
qed

theorem emailDocument_fallbacks_witness:
  "(\<exists>d w'. processAndIndexEmail (test_env\<lparr>simpleParser := (\<lambda>b. Inr bare_parsed)\<rparr>)
             (test_msg 7) ''acc'' ''INBOX'' empty_world = (Inr (), w')
      \<and> es_requests w' = [d]
      \<and> subject d = ''(No Subject)'' \<and> from_doc d = ''unknown@example.com''
      \<and> to_doc d = ''unknown@example.com'' \<and> message_id d = ''no-id-'' @ string_of_nat 7
      \<and> body_text d = [] \<and> body_html d = [] \<and> date d = 1700000000000
      \<and> flags d = [] \<and> \<not> read d)
   \<and> (\<exists>d w'. processAndIndexEmail (test_env\<lparr>simpleParser := (\<lambda>b. Inr undisclosed_parsed)\<rparr>)
             \<lparr>msg_uid = 7, msg_source = Some ''raw'', msg_flags = Some [Seen]\<rparr>
             ''acc'' ''INBOX'' empty_world = (Inr (), w')
      \<and> es_requests w' = [d]
      \<and> subject d = ''Hello'' \<and> from_doc d = ''unknown@example.com''
      \<and> to_doc d = ''a@x.io, b@y.io'' \<and> message_id d = ''<m1@x.io>''
      \<and> body_text d = ''Body'' \<and> body_html d = ''<p>Body</p>'' \<and> date d = 1600000000000
      \<and> flags d = [Seen] \<and> read d)"
proof -
  let ?bare = "test_env\<lparr>simpleParser := (\<lambda>b. Inr bare_parsed)\<rparr>"
  let ?und = "test_env\<lparr>simpleParser := (\<lambda>b. Inr undisclosed_parsed)\<rparr>"
  let ?seen = "\<lparr>msg_uid = 7, msg_source = Some ''raw'', msg_flags = Some [Seen]\<rparr>"
  have h1: "msg_source (test_msg 7) = Some ''raw''"
    by (simp add: test_msg_def)
  have h2: "simpleParser ?bare ''raw'' = Inr bare_parsed"
    by simp
  have h3: "msg_source ?seen = Some ''raw''"
    by simp
  have h4: "simpleParser ?und ''raw'' = Inr undisclosed_parsed"
    by simp
  have e: "es_requests empty_world = []" "clock_reads empty_world = 0"
    by (simp_all add: empty_world_def)
  have first: "\<exists>d w'. processAndIndexEmail ?bare (test_msg 7) ''acc'' ''INBOX'' empty_world = (Inr (), w')
      \<and> es_requests w' = [d]
      \<and> subject d = ''(No Subject)'' \<and> from_doc d = ''unknown@example.com''
      \<and> to_doc d = ''unknown@example.com'' \<and> message_id d = ''no-id-'' @ string_of_nat 7
      \<and> body_text d = [] \<and> body_html d = [] \<and> date d = 1700000000000
      \<and> flags d = [] \<and> \<not> read d"
  proof -
    obtain d w' where run: "processAndIndexEmail ?bare (test_msg 7) ''acc'' ''INBOX'' empty_world = (Inr (), w')"
      and req: "es_requests w' = es_requests empty_world @ [d]"
      and f: "parsed_subject bare_parsed = None \<or> parsed_subject bare_parsed = Some []
                \<longrightarrow> subject d = ''(No Subject)''"
        "parsed_messageId bare_parsed = None \<or> parsed_messageId bare_parsed = Some []
           \<longrightarrow> message_id d = ''no-id-'' @ string_of_nat (msg_uid (test_msg 7))"
        "parsed_text bare_parsed = None \<longrightarrow> body_text d = []"
        "parsed_html bare_parsed = None \<or> parsed_html bare_parsed = Some [] \<longrightarrow>
           (\<forall>s. parsed_textAsHtml bare_parsed = Some s \<longrightarrow> body_html d = s)
           \<and> (parsed_textAsHtml bare_parsed = None \<longrightarrow> body_html d = [])"
        "parsed_from bare_parsed = None
         \<or> (\<exists>fr. parsed_from bare_parsed = Some fr
               \<and> (addr_value fr = None \<or> addr_value fr = Some []
                   \<or> (\<exists>a as. addr_value fr = Some (a # as)
                         \<and> (address a = None \<or> address a = Some []))))
           \<longrightarrow> from_doc d = ''unknown@example.com''"
        "parsed_to bare_parsed = None \<longrightarrow> to_doc d = ''unknown@example.com''"
        "parsed_date bare_parsed = None \<longrightarrow> date d = clock ?bare (clock_reads empty_world)"
        "msg_flags (test_msg 7) = None \<longrightarrow> flags d = [] \<and> \<not> read d"
      using emailDocument_fallbacks [OF h1 h2, of "''acc''" "''INBOX''" empty_world]
      by (elim exE conjE)
    have "es_requests w' = [d]
      \<and> subject d = ''(No Subject)'' \<and> from_doc d = ''unknown@example.com''
      \<and> to_doc d = ''unknown@example.com'' \<and> message_id d = ''no-id-'' @ string_of_nat 7
      \<and> body_text d = [] \<and> body_html d = [] \<and> date d = 1700000000000
      \<and> flags d = [] \<and> \<not> read d"
      using req f unfolding e by (simp add: bare_parsed_def test_msg_def test_env_def)
    then show ?thesis
      using run by (intro exI [of _ d] exI [of _ w'] conjI) simp_all
  qed
  have usable: "usable_addresses (AddressObjects
         [\<lparr>addr_value = Some [\<lparr>address = Some ''a@x.io''\<rparr>, \<lparr>address = None\<rparr>]\<rparr>,
          \<lparr>addr_value = None\<rparr>,
          \<lparr>addr_value = Some [\<lparr>address = Some []\<rparr>, \<lparr>address = Some ''b@y.io''\<rparr>]\<rparr>])
      = [''a@x.io'', ''b@y.io'']"
    by (simp add: usable_addresses_def)
  have second: "\<exists>d w'. processAndIndexEmail ?und ?seen ''acc'' ''INBOX'' empty_world = (Inr (), w')
      \<and> es_requests w' = [d]
      \<and> subject d = ''Hello'' \<and> from_doc d = ''unknown@example.com''
      \<and> to_doc d = ''a@x.io, b@y.io'' \<and> message_id d = ''<m1@x.io>''
      \<and> body_text d = ''Body'' \<and> body_html d = ''<p>Body</p>'' \<and> date d = 1600000000000
      \<and> flags d = [Seen] \<and> read d"
  proof -
    obtain d w' where run: "processAndIndexEmail ?und ?seen ''acc'' ''INBOX'' empty_world = (Inr (), w')"
      and req: "es_requests w' = es_requests empty_world @ [d]"
      and f: "\<forall>s. parsed_subject undisclosed_parsed = Some s \<and> s \<noteq> [] \<longrightarrow> subject d = s"
        "\<forall>s. parsed_messageId undisclosed_parsed = Some s \<and> s \<noteq> [] \<longrightarrow> message_id d = s"
        "\<forall>s. parsed_text undisclosed_parsed = Some s \<longrightarrow> body_text d = s"
        "parsed_html undisclosed_parsed = None \<or> parsed_html undisclosed_parsed = Some [] \<longrightarrow>
           (\<forall>s. parsed_textAsHtml undisclosed_parsed = Some s \<longrightarrow> body_html d = s)
           \<and> (parsed_textAsHtml undisclosed_parsed = None \<longrightarrow> body_html d = [])"
        "parsed_from undisclosed_parsed = None
         \<or> (\<exists>fr. parsed_from undisclosed_parsed = Some fr
               \<and> (addr_value fr = None \<or> addr_value fr = Some []
                   \<or> (\<exists>a as. addr_value fr = Some (a # as)
                         \<and> (address a = None \<or> address a = Some []))))
           \<longrightarrow> from_doc d = ''unknown@example.com''"
        "\<forall>t. parsed_to undisclosed_parsed = Some t \<and> usable_addresses t \<noteq> []
           \<longrightarrow> to_doc d = join '', '' (usable_addresses t)"
        "\<forall>t. parsed_date undisclosed_parsed = Some t \<longrightarrow> date d = t"
        "\<forall>fs. msg_flags ?seen = Some fs \<longrightarrow> flags d = fs \<and> (read d \<longleftrightarrow> Seen \<in> set fs)"
      using emailDocument_fallbacks [OF h3 h4, of "''acc''" "''INBOX''" empty_world]
      by (elim exE conjE)
    have "es_requests w' = [d]
      \<and> subject d = ''Hello'' \<and> from_doc d = ''unknown@example.com''
      \<and> to_doc d = ''a@x.io, b@y.io'' \<and> message_id d = ''<m1@x.io>''
      \<and> body_text d = ''Body'' \<and> body_html d = ''<p>Body</p>'' \<and> date d = 1600000000000
      \<and> flags d = [Seen] \<and> read d"
      using req f unfolding e by (simp add: undisclosed_parsed_def usable)
    then show ?thesis
      using run by (intro exI [of _ d] exI [of _ w'] conjI) simp_all
  qed
  show ?thesis
    using first second by (rule conjI)
qed

text \<open>
  C1, as stated, fails: a message without a parsed date is stored with the clock reading
  of each processing, so the second write changes the stored \<^verbatim>\<open>date\<close>.
\<close>

theorem second_write_changes_date:
  "map_option date (es_index (snd (processAndIndexEmail test_env (test_msg 7) ''acc'' ''INBOX''
       empty_world)) ''acc-7'') = Some 1700000000000
   \<and> map_option date (es_index (snd (processAndIndexEmail test_env (test_msg 7) ''acc'' ''INBOX''
       (snd (processAndIndexEmail test_env (test_msg 7) ''acc'' ''INBOX'' empty_world)))) ''acc-7'')
     = Some 1700000000001"
  by (simp add: run_defs test_env_def test_msg_def test_parsed_def empty_world_def
      test_parse_Interested string_of_nat_digit digit_7 json_answer_nonempty)

text \<open>
  C1, amended. When Elasticsearch accepts the writes, processing a message twice leaves
  one document under the key \<^verbatim>\<open>{accountId}-{uid}\<close>, the second write replacing the first.
  The two documents agree in every field except possibly \<^verbatim>\<open>date\<close>, and they are equal when
  the message has a parsed date or the clock shows the same time at both readings.
\<close>

theorem storage_idempotent_except_date:
  assumes "msg_source msg = Some buf" and "simpleParser env buf = Inr parsed"
    and "\<forall>d. id_doc d = acc @ ''-'' @ string_of_nat (msg_uid msg) \<longrightarrow> client_index env d = None"
  shows "\<exists>d1 d2 w1 w2.
           processAndIndexEmail env msg acc f w = (Inr (), w1)
         \<and> processAndIndexEmail env msg acc f w1 = (Inr (), w2)
         \<and> id_doc d1 = acc @ ''-'' @ string_of_nat (msg_uid msg)
         \<and> es_index w1 = (es_index w)(id_doc d1 \<mapsto> d1)
         \<and> es_index w2 = (es_index w)(id_doc d1 \<mapsto> d2)
         \<and> dom (es_index w2) = dom (es_index w1)
         \<and> d2 = d1\<lparr>date := date d2\<rparr>
         \<and> (parsed_date parsed \<noteq> None \<or> clock env (Suc (clock_reads w)) = clock env (clock_reads w)
               \<longrightarrow> d2 = d1 \<and> es_index w2 = es_index w1)"
proof -
  let ?k = "acc @ ''-'' @ string_of_nat (msg_uid msg)"
  obtain c where run: "\<forall>w. \<exists>w'. process_parsed env msg acc f parsed w = (Inr (), w')
           \<and> es_index w' =
               (case client_index env (emailDocument_of msg acc f parsed c (date_used env parsed w)) of
                  None \<Rightarrow> (es_index w)(?k \<mapsto>
                             emailDocument_of msg acc f parsed c (date_used env parsed w))
                | Some e \<Rightarrow> es_index w)
           \<and> clock_reads w' =
                (case parsed_date parsed of Some t \<Rightarrow> clock_reads w | None \<Rightarrow> Suc (clock_reads w))"
    using process_parsed_result [of env parsed msg acc f] by blast
  let ?doc = "\<lambda>w. emailDocument_of msg acc f parsed c (date_used env parsed w)"
  have key: "id_doc (?doc w) = ?k" for w
    by (simp add: emailDocument_of_def)
  have ok: "client_index env (?doc w) = None" for w
    using assms(3) key by blast
  obtain w1 where w1: "process_parsed env msg acc f parsed w = (Inr (), w1)"
    "es_index w1 = (es_index w)(?k \<mapsto> ?doc w)"
    "clock_reads w1 = (case parsed_date parsed of Some t \<Rightarrow> clock_reads w | None \<Rightarrow> Suc (clock_reads w))"
    using run [rule_format, of w] ok [of w] by auto
  obtain w2 where w2: "process_parsed env msg acc f parsed w1 = (Inr (), w2)"
    "es_index w2 = (es_index w1)(?k \<mapsto> ?doc w1)"
    using run [rule_format, of w1] ok [of w1] by auto
  have e2: "es_index w2 = (es_index w)(?k \<mapsto> ?doc w1)"
    using w1(2) w2(2) by simp
  have same: "?doc w1 = ?doc w"
    if "parsed_date parsed \<noteq> None \<or> clock env (Suc (clock_reads w)) = clock env (clock_reads w)"
    using that w1(3) by (auto simp: date_used_def split: option.splits)
  show ?thesis
  proof (rule exI [of _ "?doc w"], rule exI [of _ "?doc w1"], rule exI [of _ w1],
      rule exI [of _ w2], intro conjI impI)
    show "processAndIndexEmail env msg acc f w = (Inr (), w1)"
      using assms(1,2) w1(1) by (simp add: processAndIndexEmail_parsed)
    show "processAndIndexEmail env msg acc f w1 = (Inr (), w2)"
      using assms(1,2) w2(1) by (simp add: processAndIndexEmail_parsed)
    show "id_doc (?doc w) = ?k" by (rule key)
    show "es_index w1 = (es_index w)(id_doc (?doc w) \<mapsto> ?doc w)"
      using w1(2) key by simp
    show "es_index w2 = (es_index w)(id_doc (?doc w) \<mapsto> ?doc w1)"
      using e2 key by simp
    show "dom (es_index w2) = dom (es_index w1)"
      using e2 w1(2) by simp
    show "?doc w1 = (?doc w)\<lparr>date := date (?doc w1)\<rparr>"
      by (simp add: emailDocument_of_def)
  next
    assume a: "parsed_date parsed \<noteq> None \<or> clock env (Suc (clock_reads w)) = clock env (clock_reads w)"
    show "?doc w1 = ?doc w" using same [OF a] .
    show "es_index w2 = es_index w1" using e2 w1(2) same [OF a] by simp
  qed
qed

theorem storage_idempotent_except_date_witness:
  "(\<exists>d1 d2 w1 w2.
      processAndIndexEmail test_env (test_msg 7) ''acc'' ''INBOX'' empty_world = (Inr (), w1)
    \<and> processAndIndexEmail test_env (test_msg 7) ''acc'' ''INBOX'' w1 = (Inr (), w2)
    \<and> es_index w1 = [''acc-7'' \<mapsto> d1] \<and> es_index w2 = [''acc-7'' \<mapsto> d2]
    \<and> d2 = d1\<lparr>date := date d2\<rparr>)
   \<and> (\<exists>d1 w1 w2.
      processAndIndexEmail (test_env\<lparr>simpleParser := (\<lambda>b. Inr (test_parsed\<lparr>parsed_date := Some 5\<rparr>))\<rparr>)
        (test_msg 7) ''acc'' ''INBOX'' empty_world = (Inr (), w1)
    \<and> processAndIndexEmail (test_env\<lparr>simpleParser := (\<lambda>b. Inr (test_parsed\<lparr>parsed_date := Some 5\<rparr>))\<rparr>)
        (test_msg 7) ''acc'' ''INBOX'' w1 = (Inr (), w2)
    \<and> es_index w1 = [''acc-7'' \<mapsto> d1] \<and> es_index w2 = es_index w1)"
proof -
  let ?env = "test_env\<lparr>simpleParser := (\<lambda>b. Inr (test_parsed\<lparr>parsed_date := Some 5\<rparr>))\<rparr>"
  have key: "''acc'' @ ''-'' @ string_of_nat (msg_uid (test_msg 7)) = ''acc-7''"
    by (simp add: test_msg_def string_of_nat_digit digit_7)
  have h1: "msg_source (test_msg 7) = Some ''raw''"
    by (simp add: test_msg_def)
  have h2: "simpleParser test_env ''raw'' = Inr test_parsed"
    by (simp add: test_env_def)
  have h3: "\<forall>d. id_doc d = ''acc'' @ ''-'' @ string_of_nat (msg_uid (test_msg 7))
              \<longrightarrow> client_index test_env d = None"
    by (simp add: test_env_def)
  have h2': "simpleParser ?env ''raw'' = Inr (test_parsed\<lparr>parsed_date := Some 5\<rparr>)"
    by simp
  have h3': "\<forall>d. id_doc d = ''acc'' @ ''-'' @ string_of_nat (msg_uid (test_msg 7))
              \<longrightarrow> client_index ?env d = None"
    by (simp add: test_env_def)
  have empty: "es_index empty_world = Map.empty"
    by (simp add: empty_world_def)
  have first: "\<exists>d1 d2 w1 w2.
      processAndIndexEmail test_env (test_msg 7) ''acc'' ''INBOX'' empty_world = (Inr (), w1)
    \<and> processAndIndexEmail test_env (test_msg 7) ''acc'' ''INBOX'' w1 = (Inr (), w2)
    \<and> es_index w1 = [''acc-7'' \<mapsto> d1] \<and> es_index w2 = [''acc-7'' \<mapsto> d2]
    \<and> d2 = d1\<lparr>date := date d2\<rparr>"
  proof -
    obtain d1 d2 w1 w2 where
      "processAndIndexEmail test_env (test_msg 7) ''acc'' ''INBOX'' empty_world = (Inr (), w1)"
      "processAndIndexEmail test_env (test_msg 7) ''acc'' ''INBOX'' w1 = (Inr (), w2)"
      "id_doc d1 = ''acc-7''"
      "es_index w1 = (es_index empty_world)(id_doc d1 \<mapsto> d1)"
      "es_index w2 = (es_index empty_world)(id_doc d1 \<mapsto> d2)"
      "d2 = d1\<lparr>date := date d2\<rparr>"
      using storage_idempotent_except_date [OF h1 h2 h3, of "''INBOX''" empty_world]
      unfolding key by blast
    then show ?thesis
      unfolding empty by (metis (no_types))
  qed
  have second: "\<exists>d1 w1 w2.
      processAndIndexEmail ?env (test_msg 7) ''acc'' ''INBOX'' empty_world = (Inr (), w1)
    \<and> processAndIndexEmail ?env (test_msg 7) ''acc'' ''INBOX'' w1 = (Inr (), w2)
    \<and> es_index w1 = [''acc-7'' \<mapsto> d1] \<and> es_index w2 = es_index w1"
  proof -
    have dated: "parsed_date (test_parsed\<lparr>parsed_date := Some 5\<rparr>) \<noteq> None
        \<or> clock ?env (Suc (clock_reads empty_world)) = clock ?env (clock_reads empty_world)"
      by simp
    obtain d1 w1 w2 where
      "processAndIndexEmail ?env (test_msg 7) ''acc'' ''INBOX'' empty_world = (Inr (), w1)"
      "processAndIndexEmail ?env (test_msg 7) ''acc'' ''INBOX'' w1 = (Inr (), w2)"
      "id_doc d1 = ''acc-7''"
      "es_index w1 = (es_index empty_world)(id_doc d1 \<mapsto> d1)"
      "es_index w2 = es_index w1"
      using storage_idempotent_except_date [OF h1 h2' h3', of "''INBOX''" empty_world] dated
      unfolding key by blast
    then show ?thesis
      unfolding empty by (metis (no_types))
  qed
  show ?thesis
    using first second by blast
qed

section \<open>Backfill\<close>

text \<open>
  C8, as stated, fails: the backfill does not filter what the search returns. When the
  search returns the UIDs 1 and 2 and message 2 is dated 1970-01-01, far before the lower
  bound, message 2 is fetched and stored all the same.
\<close>

theorem backfill_fetches_out_of_window_uid:
  "imap_calls (snd (initialSync old_mail_env ''acc'' empty_world))
     = [GetMailboxLock ''acc'' ''INBOX'', Search ''acc'' (Since 19645),
        FetchOne ''acc'' 1, FetchOne ''acc'' 2, Release ''acc'' ''INBOX'']
   \<and> map_option date (es_index (snd (initialSync old_mail_env ''acc'' empty_world)) ''acc-2'')
       = Some 0
   \<and> (0::int) < 19645 * msPerDay"
  by (simp add: sync_defs run_defs old_mail_env_def test_env_def test_parsed_def empty_world_def
      test_parse_Interested string_of_nat_digit digit_1 digit_2 json_answer_nonempty)

text \<open>
  C8, amended. The backfill reads the clock once and searches with one \<^verbatim>\<open>since\<close>
  criterion: the UTC calendar day of the instant that lies thirty days of 24 hours before
  now on the local clock (\<^verbatim>\<open>setDate(getDate() - 30)\<close>, printed by \<^verbatim>\<open>toISOString\<close>). Where
  the local offset from UTC is the same at both ends, this is the UTC day of now minus
  thirty days. The backfill then fetches every UID that the search returns, in the order
  returned, between taking and releasing the lock, and sends every message that parses to
  the index. Restricting the UIDs to the window is left to the search.
\<close>

theorem backfill_fetches_every_search_result:
  assumes "client_getMailboxLock env acc ''INBOX'' = None"
    and "now = clock env (clock_reads w)"
    and "client_search env acc (Since (sinceDate env now)) = Inr r"
    and "\<forall>u\<in>set (uids_of r). \<exists>m. client_fetchOne env acc u = Inr m"
  shows "\<exists>w'. initialSync env acc w = (Inr (), w')
           \<and> imap_calls w' = imap_calls w
                @ [GetMailboxLock acc ''INBOX'', Search acc (Since (sinceDate env now))]
                @ map (FetchOne acc) (uids_of r) @ [Release acc ''INBOX'']
           \<and> backfilled env acc ''INBOX'' (uids_of r) w'
           \<and> sinceDate env now
               = (now + LocalTZA env now True - 2592000000
                    - LocalTZA env (now + LocalTZA env now True - 2592000000) False)
                 div 86400000
           \<and> (LocalTZA env (now + LocalTZA env now True - 2592000000) False
                 = LocalTZA env now True
               \<longrightarrow> sinceDate env now = (now - 2592000000) div 86400000)"
proof -
  have search: "client_search env acc (Since (sinceDate env (clock env (clock_reads w)))) = Inr r"
    using assms(2,3) by simp
  obtain w' where w': "initialSync env acc w = (Inr (), w')"
    "imap_calls w' = imap_calls w
       @ [GetMailboxLock acc ''INBOX'', Search acc (Since (sinceDate env (clock env (clock_reads w))))]
       @ map (FetchOne acc) (uids_of r) @ [Release acc ''INBOX'']"
    "backfilled env acc ''INBOX'' (uids_of r) w'"
    using initialSync_ok [OF assms(1) search assms(4)] by (elim exE conjE)
  have calls: "imap_calls w' = imap_calls w
       @ [GetMailboxLock acc ''INBOX'', Search acc (Since (sinceDate env now))]
       @ map (FetchOne acc) (uids_of r) @ [Release acc ''INBOX'']"
    unfolding assms(2) by (rule w'(2))
  have day: "sinceDate env now
               = (now + LocalTZA env now True - 2592000000
                    - LocalTZA env (now + LocalTZA env now True - 2592000000) False)
                 div 86400000"
    by (simp add: sinceDate_def date30DaysAgo_def UTC_of_def LocalTime_def msPerDay_def)
  have fixed: "LocalTZA env (now + LocalTZA env now True - 2592000000) False
                 = LocalTZA env now True
               \<longrightarrow> sinceDate env now = (now - 2592000000) div 86400000"
    by (simp add: sinceDate_def date30DaysAgo_def UTC_of_def LocalTime_def msPerDay_def)
  show ?thesis
    by (intro exI [of _ w'] conjI w'(1) calls w'(3) day fixed)
qed

theorem backfill_fetches_every_search_result_witness:
  "(\<exists>w'. initialSync test_env ''acc'' empty_world = (Inr (), w')
      \<and> imap_calls w' = [GetMailboxLock ''acc'' ''INBOX'', Search ''acc'' (Since 19645),
                          FetchOne ''acc'' 1, FetchOne ''acc'' 2, Release ''acc'' ''INBOX'']
      \<and> ''acc-2'' \<in> dom (es_index w'))
   \<and> (\<exists>w'. initialSync new_york_env ''acc'' empty_world = (Inr (), w')
      \<and> imap_calls w' = [GetMailboxLock ''acc'' ''INBOX'', Search ''acc'' (Since 19644),
                          FetchOne ''acc'' 1, FetchOne ''acc'' 2, Release ''acc'' ''INBOX''])
   \<and> (1699921800000 - 2592000000) div 86400000 = (19645::int)"
proof -
  have e: "imap_calls empty_world = []"
    by (simp add: empty_world_def)
  have utc: "\<exists>w'. initialSync test_env ''acc'' empty_world = (Inr (), w')
      \<and> imap_calls w' = [GetMailboxLock ''acc'' ''INBOX'', Search ''acc'' (Since 19645),
                          FetchOne ''acc'' 1, FetchOne ''acc'' 2, Release ''acc'' ''INBOX'']
      \<and> ''acc-2'' \<in> dom (es_index w')"
  proof -
    have now: "(1700000000000::int) = clock test_env (clock_reads empty_world)"
      by (simp add: test_env_def empty_world_def)
    have h1: "client_getMailboxLock test_env ''acc'' ''INBOX'' = None"
      by (simp add: test_env_def)
    have h2: "client_search test_env ''acc'' (Since (sinceDate test_env 1700000000000))
        = Inr (Some [1, 2])"
      by (simp add: test_env_def)
    have h3: "\<forall>u\<in>set (uids_of (Some [1, 2])). \<exists>m. client_fetchOne test_env ''acc'' u = Inr m"
      by (simp add: test_env_def)
    obtain w' where w': "initialSync test_env ''acc'' empty_world = (Inr (), w')"
      "imap_calls w' = imap_calls empty_world
         @ [GetMailboxLock ''acc'' ''INBOX'',
            Search ''acc'' (Since (sinceDate test_env 1700000000000))]
         @ map (FetchOne ''acc'') (uids_of (Some [1, 2])) @ [Release ''acc'' ''INBOX'']"
      "backfilled test_env ''acc'' ''INBOX'' (uids_of (Some [1, 2])) w'"
      "sinceDate test_env 1700000000000
         = (1700000000000 + LocalTZA test_env 1700000000000 True - 2592000000
              - LocalTZA test_env (1700000000000 + LocalTZA test_env 1700000000000 True - 2592000000) False)
           div 86400000"
      using backfill_fetches_every_search_result [OF h1 now h2 h3] by (elim exE conjE)
    have tz: "LocalTZA test_env = (\<lambda>t isUTC. 0)"
      by (simp add: test_env_def)
    have since: "sinceDate test_env 1700000000000 = 19645"
      unfolding w'(4) tz by simp
    have calls: "imap_calls w' = [GetMailboxLock ''acc'' ''INBOX'', Search ''acc'' (Since 19645),
                          FetchOne ''acc'' 1, FetchOne ''acc'' 2, Release ''acc'' ''INBOX'']"
      unfolding w'(2) since e by (simp add: uids_of_def)
    let ?m = "test_msg 2"
    have f: "client_fetchOne test_env ''acc'' 2 = Inr (Some ?m)
        \<and> msg_source ?m = Some ''raw''
        \<and> simpleParser test_env ''raw'' = Inr test_parsed"
      by (simp add: test_env_def test_msg_def)
    have two: "(2::nat) \<in> set (uids_of (Some [1, 2]))"
      by (simp add: uids_of_def)
    have key: "''acc'' @ ''-'' @ string_of_nat (msg_uid ?m) = ''acc-2''"
      by (simp add: test_msg_def string_of_nat_digit digit_2)
    have accepted: "client_index test_env d = None" for d
      by (simp add: test_env_def)
    have "\<exists>d\<in>set (es_requests w').
        id_doc d = ''acc'' @ ''-'' @ string_of_nat (msg_uid ?m)
        \<and> account_id d = ''acc'' \<and> folder d = ''INBOX''
        \<and> (client_index test_env d = None \<longrightarrow> id_doc d \<in> dom (es_index w'))"
      by (rule w'(3) [unfolded backfilled_def, rule_format, OF two f])
    then have stored: "''acc-2'' \<in> dom (es_index w')"
      unfolding key accepted by (elim bexE conjE) simp
    show ?thesis
      by (intro exI [of _ w'] conjI w'(1) calls stored)
  qed
  have ny: "\<exists>w'. initialSync new_york_env ''acc'' empty_world = (Inr (), w')
      \<and> imap_calls w' = [GetMailboxLock ''acc'' ''INBOX'', Search ''acc'' (Since 19644),
                          FetchOne ''acc'' 1, FetchOne ''acc'' 2, Release ''acc'' ''INBOX'']"
  proof -
    have now: "(1699921800000::int) = clock new_york_env (clock_reads empty_world)"
      by (simp add: new_york_env_def test_env_def empty_world_def)
    have h1: "client_getMailboxLock new_york_env ''acc'' ''INBOX'' = None"
      by (simp add: new_york_env_def test_env_def)
    have h2: "client_search new_york_env ''acc'' (Since (sinceDate new_york_env 1699921800000))
        = Inr (Some [1, 2])"
      by (simp add: new_york_env_def test_env_def)
    have h3: "\<forall>u\<in>set (uids_of (Some [1, 2])). \<exists>m. client_fetchOne new_york_env ''acc'' u = Inr m"
      by (simp add: new_york_env_def test_env_def)
    obtain w' where w': "initialSync new_york_env ''acc'' empty_world = (Inr (), w')"
      "imap_calls w' = imap_calls empty_world
         @ [GetMailboxLock ''acc'' ''INBOX'',
            Search ''acc'' (Since (sinceDate new_york_env 1699921800000))]
         @ map (FetchOne ''acc'') (uids_of (Some [1, 2])) @ [Release ''acc'' ''INBOX'']"
      "sinceDate new_york_env 1699921800000
         = (1699921800000 + LocalTZA new_york_env 1699921800000 True - 2592000000
              - LocalTZA new_york_env
                  (1699921800000 + LocalTZA new_york_env 1699921800000 True - 2592000000) False)
           div 86400000"
      using backfill_fetches_every_search_result [OF h1 now h2 h3] by (elim exE conjE)
    have tz: "LocalTZA new_york_env
        = (\<lambda>t isUTC. if t < (if isUTC then 1699164000000 else 1699149600000)
                               then - 14400000 else - 18000000)"
      by (simp add: new_york_env_def)
    have since: "sinceDate new_york_env 1699921800000 = 19644"
      unfolding w'(3) tz by simp
    have calls: "imap_calls w' = [GetMailboxLock ''acc'' ''INBOX'', Search ''acc'' (Since 19644),
                          FetchOne ''acc'' 1, FetchOne ''acc'' 2, Release ''acc'' ''INBOX'']"
      unfolding w'(2) since e by (simp add: uids_of_def)
    show ?thesis
      by (intro exI [of _ w'] conjI w'(1) calls)
  qed
  have plain: "(1699921800000 - 2592000000) div 86400000 = (19645::int)"
    by simp
  show ?thesis
    by (intro conjI utc ny plain)
qed




section \<open>Live sync\<close>

text \<open>
  C7. With the lock granted and the search for unseen messages answered, the handler
  never throws. For an empty result it sends no fetch and touches neither the index nor
  the oracle nor the automation. For a non-empty result it sends exactly one fetch, for
  the last UID of the result, and then processes the message that the fetch returned (and
  nothing when the fetch returned no message or threw).
\<close>

theorem live_sync_processes_last_unseen:
  assumes lock: "client_getMailboxLock env acc path = None"
    and search: "client_search env acc Unseen = Inr r"
  shows "\<exists>w'. on_exists env acc path count w = (Inr (), w')
     \<and> (uids_of r = [] \<longrightarrow>
           imap_calls w' = imap_calls w
             @ [GetMailboxLock acc path, Search acc Unseen, Release acc path]
           \<and> es_requests w' = es_requests w \<and> es_index w' = es_index w
           \<and> openai_requests w' = openai_requests w
           \<and> automation_calls w' = automation_calls w)
     \<and> (uids_of r \<noteq> [] \<longrightarrow>
           imap_calls w' = imap_calls w
             @ [GetMailboxLock acc path, Search acc Unseen, FetchOne acc (last (uids_of r)),
                Release acc path]
           \<and> (\<forall>m. client_fetchOne env acc (last (uids_of r)) = Inr (Some m) \<longrightarrow>
                 (\<exists>w0. es_requests w0 = es_requests w \<and> es_index w0 = es_index w
                    \<and> openai_requests w0 = openai_requests w
                    \<and> automation_calls w0 = automation_calls w
                    \<and> clock_reads w0 = clock_reads w
                    \<and> w' = lock_release acc path (snd (processAndIndexEmail env m acc path w0))))
           \<and> (client_fetchOne env acc (last (uids_of r)) = Inr None
                \<or> (\<exists>e. client_fetchOne env acc (last (uids_of r)) = Inl e) \<longrightarrow>
                 es_requests w' = es_requests w \<and> es_index w' = es_index w
                 \<and> openai_requests w' = openai_requests w
                 \<and> automation_calls w' = automation_calls w))"
proof -
  let ?uids = "uids_of r"
  let ?l1 = "idle_tag acc @ '' New message detected in '' @ path
              @ ''. Total count: '' @ string_of_nat count"
  let ?h = "\<lambda>error. console_error (idle_tag acc @ '' Error processing new mail: ''
                   @ error_message_any error)"
  define w1 where "w1 = w\<lparr>console := console w @ [Log ?l1]\<rparr>"
  define w2 where "w2 = w1\<lparr>imap_calls := imap_calls w1 @ [GetMailboxLock acc path]\<rparr>"
  define w3 where "w3 = w2\<lparr>imap_calls := imap_calls w2 @ [Search acc Unseen]\<rparr>"
  define body where "body = bindE (imap_search env acc Unseen) (\<lambda>searchResult.
             let uids = uids_of searchResult in
             if length uids > 0 then
               (let latestUid = uids ! (length uids - 1) in
                bindE (console_log (idle_tag acc @ '' Fetching new message with UID: ''
                         @ string_of_nat latestUid)) (\<lambda>_.
                fetch_and_process env acc path latestUid))
             else returnE ())"
  have unfold: "on_exists env acc path count w =
      try_catch (bindE (imap_getMailboxLock env acc path)
                   (\<lambda>_. try_finally body (lock_release acc path))) ?h w1"
    unfolding on_exists_def body_def w1_def by (rule bindE_console_log)
  have locked: "bindE (imap_getMailboxLock env acc path)
                   (\<lambda>_. try_finally body (lock_release acc path)) w1
      = try_finally body (lock_release acc path) w2"
    using lock by (simp add: bindE_def imap_getMailboxLock_def w2_def)
  have frame3: "imap_calls w3 = imap_calls w @ [GetMailboxLock acc path, Search acc Unseen]"
    "es_requests w3 = es_requests w" "es_index w3 = es_index w"
    "openai_requests w3 = openai_requests w" "automation_calls w3 = automation_calls w"
    "clock_reads w3 = clock_reads w"
    by (simp_all add: w3_def w2_def w1_def)
  show ?thesis
  proof (cases "?uids = []")
    case True
    have "body w2 = (Inr (), w3)"
      using search True
      by (simp add: body_def bindE_def imap_search_def returnE_def w3_def)
    then have "try_finally body (lock_release acc path) w2 = (Inr (), lock_release acc path w3)"
      by (rule try_finally_result)
    then have run: "on_exists env acc path count w = (Inr (), lock_release acc path w3)"
      unfolding unfold by (simp add: try_catch_def locked)
    show ?thesis
      using True frame3 unfolding run by (simp add: lock_release_def)
  next
    case False
    let ?u = "last ?uids"
    have latest: "?uids ! (length ?uids - 1) = ?u"
      using False by (simp add: last_conv_nth)
    define w4 where "w4 = w3\<lparr>console := console w3 @ [Log (idle_tag acc
        @ '' Fetching new message with UID: '' @ string_of_nat ?u)]\<rparr>"
    have body_eq: "body w2 = fetch_and_process env acc path ?u w4"
      using search False latest
      by (simp add: body_def bindE_def imap_search_def console_log_def w3_def w4_def Let_def)
    have frame4: "imap_calls (fetched acc ?u w4)
        = imap_calls w @ [GetMailboxLock acc path, Search acc Unseen, FetchOne acc ?u]"
      "es_requests (fetched acc ?u w4) = es_requests w" "es_index (fetched acc ?u w4) = es_index w"
      "openai_requests (fetched acc ?u w4) = openai_requests w"
      "automation_calls (fetched acc ?u w4) = automation_calls w"
      "clock_reads (fetched acc ?u w4) = clock_reads w"
      using frame3 by (simp_all add: fetched_def w4_def)
    show ?thesis
    proof (cases "client_fetchOne env acc ?u")
      case (Inl e)
      define w5 where "w5 = lock_release acc path (fetched acc ?u w4)"
      have "try_finally body (lock_release acc path) w2 = (Inl e, w5)"
        using body_eq Inl by (simp add: try_finally_def fetch_and_process_throws w5_def)
      then have run: "on_exists env acc path count w =
          (Inr (), w5\<lparr>console := console w5 @ [ErrorLine (idle_tag acc
              @ '' Error processing new mail: '' @ error_message_any e)]\<rparr>)"
        unfolding unfold by (simp add: try_catch_def locked console_error_def)
      show ?thesis
        using False Inl frame4 unfolding run by (simp add: w5_def lock_release_def)
    next
      case (Inr m)
      show ?thesis
      proof (cases m)
        case None
        have "try_finally body (lock_release acc path) w2
            = (Inr (), lock_release acc path (fetched acc ?u w4))"
          using body_eq Inr None by (simp add: try_finally_def fetch_and_process_absent)
        then have run: "on_exists env acc path count w
            = (Inr (), lock_release acc path (fetched acc ?u w4))"
          unfolding unfold by (simp add: try_catch_def locked)
        show ?thesis
          using False Inr None frame4 unfolding run by (simp add: lock_release_def)
      next
        case (Some msg)
        obtain w5 where w5: "processAndIndexEmail env msg acc path (fetched acc ?u w4) = (Inr (), w5)"
          "session_of w5 = session_of (fetched acc ?u w4)"
          using processAndIndexEmail_total by blast
        have "try_finally body (lock_release acc path) w2 = (Inr (), lock_release acc path w5)"
          using body_eq Inr Some w5(1) by (simp add: try_finally_def fetch_and_process_message)
        then have run: "on_exists env acc path count w = (Inr (), lock_release acc path w5)"
          unfolding unfold by (simp add: try_catch_def locked)
        have calls: "imap_calls (lock_release acc path w5) = imap_calls w
             @ [GetMailboxLock acc path, Search acc Unseen, FetchOne acc ?u, Release acc path]"
          using w5(2) frame4(1) by (simp add: lock_release_def session_of_def)
        have proc: "\<exists>w0. es_requests w0 = es_requests w \<and> es_index w0 = es_index w
                    \<and> openai_requests w0 = openai_requests w
                    \<and> automation_calls w0 = automation_calls w
                    \<and> clock_reads w0 = clock_reads w
                    \<and> lock_release acc path w5
                        = lock_release acc path (snd (processAndIndexEmail env msg acc path w0))"
          using frame4 w5(1) by (intro exI [of _ "fetched acc ?u w4"]) simp
        show ?thesis
          unfolding run using False Inr Some calls proc by simp
      qed
    qed
  qed
qed

theorem live_sync_processes_last_unseen_witness:
  "(\<exists>w'. on_exists test_env ''acc'' ''INBOX'' 5 empty_world = (Inr (), w')
      \<and> imap_calls w' = [GetMailboxLock ''acc'' ''INBOX'', Search ''acc'' Unseen,
                          FetchOne ''acc'' 2, Release ''acc'' ''INBOX''])
   \<and> (\<exists>w'. on_exists (test_env\<lparr>client_search := (\<lambda>a c. Inr (Some []))\<rparr>) ''acc'' ''INBOX'' 5
              empty_world = (Inr (), w')
      \<and> imap_calls w' = [GetMailboxLock ''acc'' ''INBOX'', Search ''acc'' Unseen,
                          Release ''acc'' ''INBOX'']
      \<and> es_requests w' = [] \<and> openai_requests w' = [])
   \<and> (\<exists>w'. on_exists (test_env\<lparr>client_fetchOne := (\<lambda>a u. Inr None)\<rparr>) ''acc'' ''INBOX'' 5
              empty_world = (Inr (), w')
      \<and> imap_calls w' = [GetMailboxLock ''acc'' ''INBOX'', Search ''acc'' Unseen,
                          FetchOne ''acc'' 2, Release ''acc'' ''INBOX'']
      \<and> es_requests w' = [] \<and> openai_requests w' = [])"
proof -
  let ?none = "test_env\<lparr>client_search := (\<lambda>a c. Inr (Some []))\<rparr>"
  let ?gone = "test_env\<lparr>client_fetchOne := (\<lambda>a u. Inr None)\<rparr>"
  have l1: "client_getMailboxLock test_env ''acc'' ''INBOX'' = None"
    and s1: "client_search test_env ''acc'' Unseen = Inr (Some [1, 2])"
    by (simp_all add: test_env_def)
  have l2: "client_getMailboxLock ?none ''acc'' ''INBOX'' = None"
    and s2: "client_search ?none ''acc'' Unseen = Inr (Some [])"
    by (simp_all add: test_env_def)
  have l3: "client_getMailboxLock ?gone ''acc'' ''INBOX'' = None"
    and s3: "client_search ?gone ''acc'' Unseen = Inr (Some [1, 2])"
    by (simp_all add: test_env_def)
  have a: "\<exists>w'. on_exists test_env ''acc'' ''INBOX'' 5 empty_world = (Inr (), w')
      \<and> imap_calls w' = [GetMailboxLock ''acc'' ''INBOX'', Search ''acc'' Unseen,
                          FetchOne ''acc'' 2, Release ''acc'' ''INBOX'']"
    using live_sync_processes_last_unseen [OF l1 s1, of 5 empty_world]
    by (auto simp: uids_of_def empty_world_def)
  have b: "\<exists>w'. on_exists ?none ''acc'' ''INBOX'' 5 empty_world = (Inr (), w')
      \<and> imap_calls w' = [GetMailboxLock ''acc'' ''INBOX'', Search ''acc'' Unseen,
                          Release ''acc'' ''INBOX'']
      \<and> es_requests w' = [] \<and> openai_requests w' = []"
    using live_sync_processes_last_unseen [OF l2 s2, of 5 empty_world]
    by (auto simp: uids_of_def empty_world_def)
  have c: "\<exists>w'. on_exists ?gone ''acc'' ''INBOX'' 5 empty_world = (Inr (), w')
      \<and> imap_calls w' = [GetMailboxLock ''acc'' ''INBOX'', Search ''acc'' Unseen,
                          FetchOne ''acc'' 2, Release ''acc'' ''INBOX'']
      \<and> es_requests w' = [] \<and> openai_requests w' = []"
    using live_sync_processes_last_unseen [OF l3 s3, of 5 empty_world]
    by (auto simp: uids_of_def empty_world_def)
  show ?thesis
    using a b c by blast
qed

section \<open>Account isolation\<close>



end
